theory Spec2Isabelle
  imports Main
begin

section \<open>Container Build Manager: a shallow embedding of build_containers.py\<close>

text \<open>
  The script drives a container engine through three calls
  (\<^verbatim>\<open>docker.from_env\<close>, \<^verbatim>\<open>client.images.get\<close>, \<^verbatim>\<open>client.api.build\<close>), writes one
  log file and prints to the two console streams. The embedding makes all of that explicit:
  \<^item> the engine and the file system are a parameter (a \<open>world\<close>): for each call it says
    whether the call returns or raises, and which events the build stream yields;
  \<^item> every function returns its Python outcome, \<open>Inr\<close> the returned value or \<open>Inl\<close> the
    exception that propagates out of it, together with the list of effects it performed,
    in program order;
  \<^item> each \<^verbatim>\<open>print\<close> call site is one constructor of the effect type, carrying the values
    interpolated into its f-string (the fixed text and its decoration are in the comment
    of the constructor).
  The faults come from the engine and from opening the log file. Writing to, flushing and
  closing a file that was opened, and printing, are taken to succeed, and the event stream
  of one build is finite.
\<close>

subsection \<open>Formatting integers as Python's \<^verbatim>\<open>str\<close> does\<close>

definition digit_char :: "nat \<Rightarrow> char" where
  "digit_char n = ''0123456789'' ! (n mod 10)"

function str_nat :: "nat \<Rightarrow> string" where
  "str_nat n = (if n < 10 then [digit_char n] else str_nat (n div 10) @ [digit_char n])"
  by pat_completeness auto
termination
  by (relation "measure (\<lambda>n. n)") auto

declare str_nat.simps [simp del]

definition str_int :: "int \<Rightarrow> string" where
  "str_int i = (if i < 0 then CHR ''-'' # str_nat (nat (- i)) else str_nat (nat i))"

subsection \<open>Exceptions\<close>

text \<open>
  The exceptions the script distinguishes, each with the text \<^verbatim>\<open>str(e)\<close> gives.
  \<open>BuildError\<close>, \<open>APIError\<close> and \<open>ImageNotFound\<close> are the classes imported from
  \<^verbatim>\<open>docker.errors\<close> (line 40); there \<open>ImageNotFound\<close> is a subclass of \<open>APIError\<close>.
  \<open>OtherException\<close> stands for every other subclass of \<^verbatim>\<open>Exception\<close> (the \<^verbatim>\<open>OSError\<close> of
  a file that cannot be opened is one). \<open>KeyboardInterrupt\<close> is the external interrupt;
  it derives from \<^verbatim>\<open>BaseException\<close>, so \<^verbatim>\<open>except Exception\<close> does not catch it.
  \<open>OtherBaseException\<close> stands for the other classes outside \<^verbatim>\<open>Exception\<close>
  (\<^verbatim>\<open>SystemExit\<close>, \<^verbatim>\<open>GeneratorExit\<close>): no handler of the script catches them.
\<close>

datatype exn =
    BuildError string
  | APIError string
  | ImageNotFound string
  | OtherException string
  | KeyboardInterrupt
  | OtherBaseException string

text \<open>The instances of \<^verbatim>\<open>Exception\<close>: what \<^verbatim>\<open>except Exception\<close> catches.\<close>

fun is_exception :: "exn \<Rightarrow> bool" where
  "is_exception KeyboardInterrupt = False"
| "is_exception (OtherBaseException m) = False"
| "is_exception e = True"

subsection \<open>Engine events, requests and the world\<close>

text \<open>
  One decoded element of the build stream: a dictionary, of which the script reads the
  keys \<^verbatim>\<open>'stream'\<close>, \<^verbatim>\<open>'status'\<close>, \<^verbatim>\<open>'id'\<close> and \<^verbatim>\<open>'error'\<close>. \<open>None\<close> is an absent key.
\<close>

record chunk =
  c_stream :: "string option"
  c_status :: "string option"
  c_id :: "string option"
  c_error :: "string option"

definition TextChunk :: "string \<Rightarrow> chunk" where
  "TextChunk text = \<lparr>c_stream = Some text, c_status = None, c_id = None, c_error = None\<rparr>"

definition StatusUpdate :: "string option \<Rightarrow> string \<Rightarrow> chunk" where
  "StatusUpdate ident message =
     \<lparr>c_stream = None, c_status = Some message, c_id = ident, c_error = None\<rparr>"

definition ErrorSignal :: "string \<Rightarrow> chunk" where
  "ErrorSignal message =
     \<lparr>c_stream = None, c_status = None, c_id = None, c_error = Some message\<rparr>"

text \<open>
  The generator returned by \<^verbatim>\<open>client.api.build(..., decode=True)\<close>: the chunks it yields
  and how it ends, exhausted (\<open>None\<close>) or by raising (\<open>Some e\<close>).
\<close>

type_synonym build_stream = "chunk list \<times> exn option"

text \<open>\<^verbatim>\<open>self.root_dir / name\<close>: a file of the script's directory.\<close>

datatype path = Child string string

text \<open>The keyword arguments of \<^verbatim>\<open>client.api.build\<close>.\<close>

record build_request =
  r_path :: string
  r_dockerfile :: string
  r_tag :: string
  r_buildargs :: "(string \<times> string) list"
  r_decode :: bool
  r_rm :: bool

text \<open>
  What the script's surroundings answer: each call returns (\<open>None\<close>, or \<open>Inr\<close> the stream
  for the build) or raises. \<open>fs_open\<close> is \<^verbatim>\<open>open(log_file, 'w')\<close>.
\<close>

record world =
  from_env :: "exn option"
  images_get :: "string \<Rightarrow> exn option"
  api_build :: "build_request \<Rightarrow> exn + build_stream"
  fs_open :: "path \<Rightarrow> exn option"

subsection \<open>Effects\<close>

datatype event =
    From_env
    \<comment> \<open>line 54: \<^verbatim>\<open>docker.from_env()\<close>\<close>
  | Images_get string
    \<comment> \<open>line 98: \<^verbatim>\<open>self.client.images.get(image_tag)\<close>\<close>
  | Engine_build build_request
    \<comment> \<open>lines 145 and 209: \<^verbatim>\<open>self.client.api.build(...)\<close>\<close>
  | File_open path
    \<comment> \<open>line 62: \<^verbatim>\<open>open(log_file, 'w')\<close>\<close>
  | File_write path string
    \<comment> \<open>lines 71 and 85: \<^verbatim>\<open>log_handle.write(...)\<close>\<close>
  | File_flush path
    \<comment> \<open>line 72\<close>
  | File_close path
    \<comment> \<open>line 89\<close>
  | Say_header string
    \<comment> \<open>line 58, stdout: a blank line, then the description\<close>
  | Echo string
    \<comment> \<open>line 69, stdout: the text, with no line end added\<close>
  | Say_status "string option" string
    \<comment> \<open>lines 78 and 80, stdout: \<^verbatim>\<open>"{id}: {status}"\<close> or \<^verbatim>\<open>"{status}"\<close>\<close>
  | Err_build_error string
    \<comment> \<open>line 83, stderr: \<^verbatim>\<open>"Build error: {error_msg}"\<close>\<close>
  | Log_saved path
    \<comment> \<open>line 90, stdout: \<^verbatim>\<open>"Build log saved to: {log_file}"\<close>\<close>
  | Plan_clang int string "(string \<times> string) list" path
    \<comment> \<open>lines 137-141, stdout: the dry-run plan (version, tag, build args, log file)\<close>
  | Plan_devcontainer int string "(string \<times> string) list"
    \<comment> \<open>lines 202-205, stdout: the dry-run plan (version, tag, build args)\<close>
  | Ok_built string
    \<comment> \<open>lines 160 and 224, stdout: \<^verbatim>\<open>"Successfully built {tag}"\<close>\<close>
  | Err_build_failed string
    \<comment> \<open>lines 164 and 228, stderr: \<^verbatim>\<open>"Build failed: {e}"\<close>\<close>
  | Err_api string
    \<comment> \<open>lines 167 and 231, stderr: \<^verbatim>\<open>"Docker API error: {e}"\<close>\<close>
  | Err_unexpected string
    \<comment> \<open>lines 170 and 234, stderr: \<^verbatim>\<open>"Unexpected error: {e}"\<close>\<close>
  | Err_base_missing string
    \<comment> \<open>line 193, stderr: \<^verbatim>\<open>"Error: Base image {img} not found. Build it first with:"\<close>\<close>
  | Err_hint string
    \<comment> \<open>line 194, stderr: two spaces, then the command line to run\<close>
  | Say_all int
    \<comment> \<open>line 254, stdout: \<^verbatim>\<open>"Building Clang {v} and devcontainer..."\<close>\<close>
  | Ok_all int
    \<comment> \<open>line 266, stdout: \<^verbatim>\<open>"Successfully built all containers for Clang {v}"\<close>\<close>
  | Usage
    \<comment> \<open>lines 357 and 383: \<^verbatim>\<open>parser.print_help()\<close>\<close>
  | Err_interrupted
    \<comment> \<open>line 387, stderr: \<^verbatim>\<open>"Build interrupted by user"\<close>\<close>

type_synonym 'a outcome = "(exn + 'a) \<times> event list"

subsection \<open>ContainerBuilder\<close>

record builder =
  dry_run :: bool
  verbose :: bool
  root_dir :: string

text \<open>
  The loop of \<^verbatim>\<open>_stream_build_output\<close> (lines 65-86) over the chunks \<open>cs\<close> of a stream
  that ends as \<open>fin\<close> says; \<open>h\<close> is \<^verbatim>\<open>log_handle\<close>. The \<^verbatim>\<open>if\<close>/\<^verbatim>\<open>elif\<close> chain tests the
  keys in the order \<^verbatim>\<open>'stream'\<close>, \<^verbatim>\<open>'status'\<close>, \<^verbatim>\<open>'error'\<close>; a chunk with none of them
  is skipped.
\<close>

fun stream_loop :: "bool \<Rightarrow> path option \<Rightarrow> chunk list \<Rightarrow> exn option \<Rightarrow> unit outcome" where
  "stream_loop vb h [] fin = (case fin of None \<Rightarrow> (Inr (), []) | Some e \<Rightarrow> (Inl e, []))"
| "stream_loop vb h (c # cs) fin =
     (case c_stream c of
        Some text \<Rightarrow>
          (case stream_loop vb h cs fin of
             (r, tr) \<Rightarrow>
               (r, (if vb then [Echo text] else [])
                   @ (case h of Some p \<Rightarrow> [File_write p text, File_flush p] | None \<Rightarrow> [])
                   @ tr))
      | None \<Rightarrow>
          (case c_status c of
             Some status \<Rightarrow>
               (case stream_loop vb h cs fin of
                  (r, tr) \<Rightarrow> (r, (if vb then [Say_status (c_id c) status] else []) @ tr))
           | None \<Rightarrow>
               (case c_error c of
                  Some error_msg \<Rightarrow>
                    (Inl (BuildError error_msg),
                     Err_build_error error_msg
                     # (case h of
                          Some p \<Rightarrow> [File_write p (''ERROR: '' @ error_msg @ [CHR 0x0A])]
                        | None \<Rightarrow> []))
                | None \<Rightarrow> stream_loop vb h cs fin)))"

text \<open>
  \<^verbatim>\<open>_stream_build_output\<close> (lines 56-90): the header; the file opened when a log file is
  given outside dry-run, before the \<^verbatim>\<open>try\<close>, so that a failing \<^verbatim>\<open>open\<close> leaves the
  function at once; the loop; and the \<^verbatim>\<open>finally\<close> block, which runs however the loop ends
  and lets its outcome through.
\<close>

definition stream_build_output ::
  "builder \<Rightarrow> world \<Rightarrow> build_stream \<Rightarrow> string \<Rightarrow> path option \<Rightarrow> unit outcome" where
  "stream_build_output b w s description log_file =
     (case (if dry_run b then None else log_file) of
        None \<Rightarrow>
          (case stream_loop (verbose b) None (fst s) (snd s) of
             (r, tr) \<Rightarrow> (r, Say_header description # tr))
      | Some p \<Rightarrow>
          (case fs_open w p of
             Some e \<Rightarrow> (Inl e, [Say_header description, File_open p])
           | None \<Rightarrow>
               (case stream_loop (verbose b) (Some p) (fst s) (snd s) of
                  (r, tr) \<Rightarrow>
                    (r, Say_header description # File_open p # tr
                        @ [File_close p, Log_saved p]))))"

text \<open>\<^verbatim>\<open>_image_exists\<close> (lines 92-101): only \<open>ImageNotFound\<close> is caught.\<close>

definition image_exists :: "builder \<Rightarrow> world \<Rightarrow> string \<Rightarrow> bool outcome" where
  "image_exists b w image_tag =
     (if dry_run b then (Inr True, [])
      else (case images_get w image_tag of
              None \<Rightarrow> (Inr True, [Images_get image_tag])
            | Some (ImageNotFound m) \<Rightarrow> (Inr False, [Images_get image_tag])
            | Some e \<Rightarrow> (Inl e, [Images_get image_tag])))"

text \<open>
  The body of the \<^verbatim>\<open>try\<close> statement of a stage (lines 145-161 and 209-225): the engine's
  build call, the stream handed to the sink, the success notice.
\<close>

definition try_build ::
  "builder \<Rightarrow> world \<Rightarrow> build_request \<Rightarrow> string \<Rightarrow> path option \<Rightarrow> int outcome" where
  "try_build b w req description log_file =
     (case api_build w req of
        Inl e \<Rightarrow> (Inl e, [Engine_build req])
      | Inr s \<Rightarrow>
          (case stream_build_output b w s description log_file of
             (Inl e, tr) \<Rightarrow> (Inl e, Engine_build req # tr)
           | (Inr u, tr) \<Rightarrow> (Inr 0, Engine_build req # tr @ [Ok_built (r_tag req)])))"

text \<open>
  The \<^verbatim>\<open>except\<close> clauses of a stage (lines 163-171 and 227-235, the same text twice), in
  their order: \<open>BuildError\<close>, \<open>APIError\<close> (with its subclass), \<open>Exception\<close>. Nothing
  catches what is outside \<^verbatim>\<open>Exception\<close>.
\<close>

fun except_clauses :: "int outcome \<Rightarrow> int outcome" where
  "except_clauses (Inr code, tr) = (Inr code, tr)"
| "except_clauses (Inl (BuildError m), tr) = (Inr 1, tr @ [Err_build_failed m])"
| "except_clauses (Inl (APIError m), tr) = (Inr 1, tr @ [Err_api m])"
| "except_clauses (Inl (ImageNotFound m), tr) = (Inr 1, tr @ [Err_api m])"
| "except_clauses (Inl (OtherException m), tr) = (Inr 1, tr @ [Err_unexpected m])"
| "except_clauses (Inl KeyboardInterrupt, tr) = (Inl KeyboardInterrupt, tr)"
| "except_clauses (Inl (OtherBaseException m), tr) = (Inl (OtherBaseException m), tr)"

definition default_git_ref :: "int \<Rightarrow> string" where
  "default_git_ref version = ''llvmorg-'' @ str_int version @ ''.1.2''"

definition git_ref_or_default :: "int \<Rightarrow> string option \<Rightarrow> string" where
  "git_ref_or_default version git_ref_arg =
     (case git_ref_arg of None \<Rightarrow> default_git_ref version | Some r \<Rightarrow> r)"

definition clang_tag :: "int \<Rightarrow> string \<Rightarrow> string" where
  "clang_tag version tag_suffix = ''clang-ubuntu:'' @ str_int version @ tag_suffix"

definition devcontainer_tag :: "int \<Rightarrow> string \<Rightarrow> string" where
  "devcontainer_tag version tag_suffix = ''devcontainer-clang:'' @ str_int version @ tag_suffix"

definition clang_log_file :: "builder \<Rightarrow> int \<Rightarrow> path" where
  "clang_log_file b version = Child (root_dir b) (''build-clang-'' @ str_int version @ ''.log'')"

definition clang_build_args :: "string \<Rightarrow> string \<Rightarrow> int \<Rightarrow> (string \<times> string) list" where
  "clang_build_args git_ref git_url jobs =
     [(''LLVM_GIT_REF'', git_ref), (''LLVM_GIT_URL'', git_url), (''NUM_JOBS'', str_int jobs)]"

definition clang_request ::
  "builder \<Rightarrow> string \<Rightarrow> (string \<times> string) list \<Rightarrow> build_request" where
  "clang_request b tag build_args =
     \<lparr>r_path = root_dir b, r_dockerfile = ''Dockerfile.clang.ubuntu'', r_tag = tag,
      r_buildargs = build_args, r_decode = True, r_rm = True\<rparr>"

definition default_git_url :: string where
  "default_git_url = ''https://github.com/llvm/llvm-project.git''"

text \<open>\<^verbatim>\<open>build_clang\<close> (lines 103-171).\<close>

definition build_clang ::
  "builder \<Rightarrow> world \<Rightarrow> int \<Rightarrow> string option \<Rightarrow> string \<Rightarrow> int \<Rightarrow> string \<Rightarrow> int outcome" where
  "build_clang b w version git_ref_arg git_url jobs tag_suffix =
     (let git_ref = git_ref_or_default version git_ref_arg;
          tag = clang_tag version tag_suffix;
          log_file = clang_log_file b version;
          build_args = clang_build_args git_ref git_url jobs
      in if dry_run b then (Inr 0, [Plan_clang version tag build_args log_file])
         else except_clauses
                (try_build b w (clang_request b tag build_args)
                   (''Building Clang '' @ str_int version @ '' from '' @ git_ref)
                   (if \<not> verbose b then Some log_file else None)))"

definition devcontainer_request ::
  "builder \<Rightarrow> string \<Rightarrow> (string \<times> string) list \<Rightarrow> build_request" where
  "devcontainer_request b tag build_args =
     \<lparr>r_path = root_dir b, r_dockerfile = ''Dockerfile.devcontainer.clang'', r_tag = tag,
      r_buildargs = build_args, r_decode = True, r_rm = True\<rparr>"

definition hint_command :: "int \<Rightarrow> string" where
  "hint_command clang_version = ''./build_containers.py clang --version '' @ str_int clang_version"

text \<open>\<^verbatim>\<open>build_devcontainer\<close> (lines 173-235). The existence check is outside the \<^verbatim>\<open>try\<close>.\<close>

definition build_devcontainer :: "builder \<Rightarrow> world \<Rightarrow> int \<Rightarrow> string \<Rightarrow> int outcome" where
  "build_devcontainer b w clang_version tag_suffix =
     (let clang_base_image = clang_tag clang_version tag_suffix;
          tag = devcontainer_tag clang_version tag_suffix;
          build_args = [(''CLANG_BASE_IMAGE'', clang_base_image)]
      in case image_exists b w clang_base_image of
           (Inl e, tr0) \<Rightarrow> (Inl e, tr0)
         | (Inr False, tr0) \<Rightarrow>
             (Inr 1, tr0 @ [Err_base_missing clang_base_image,
                            Err_hint (hint_command clang_version)])
         | (Inr True, tr0) \<Rightarrow>
             if dry_run b then (Inr 0, tr0 @ [Plan_devcontainer clang_version tag build_args])
             else (case except_clauses
                          (try_build b w (devcontainer_request b tag build_args)
                             (''Building devcontainer with Clang '' @ str_int clang_version)
                             None) of
                     (r, tr) \<Rightarrow> (r, tr0 @ tr)))"

text \<open>\<^verbatim>\<open>build_all\<close> (lines 237-267).\<close>

definition build_all :: "builder \<Rightarrow> world \<Rightarrow> int \<Rightarrow> string option \<Rightarrow> int \<Rightarrow> int outcome" where
  "build_all b w clang_version git_ref jobs =
     (case build_clang b w clang_version git_ref default_git_url jobs [] of
        (Inl e, tr1) \<Rightarrow> (Inl e, Say_all clang_version # tr1)
      | (Inr result, tr1) \<Rightarrow>
          if result \<noteq> 0 then (Inr result, Say_all clang_version # tr1)
          else (case build_devcontainer b w clang_version [] of
                  (Inl e, tr2) \<Rightarrow> (Inl e, Say_all clang_version # tr1 @ tr2)
                | (Inr result2, tr2) \<Rightarrow>
                    if result2 \<noteq> 0 then (Inr result2, Say_all clang_version # tr1 @ tr2)
                    else (Inr 0, Say_all clang_version # tr1 @ tr2 @ [Ok_all clang_version])))"

subsection \<open>main\<close>

text \<open>
  The namespace \<^verbatim>\<open>parser.parse_args()\<close> returns (line 354); an attribute a subcommand does
  not declare is not read on its branch. \<open>command\<close> is \<open>None\<close> when no subcommand is given.
\<close>

record args =
  command :: "string option"
  a_version :: int
  a_clang_version :: int
  a_git_ref :: "string option"
  a_git_url :: string
  a_jobs :: int
  a_tag_suffix :: string
  a_dry_run :: bool
  a_verbose :: bool

text \<open>The dispatch inside the \<^verbatim>\<open>try\<close> of \<^verbatim>\<open>main\<close> (lines 363-384).\<close>

definition run_command :: "builder \<Rightarrow> world \<Rightarrow> args \<Rightarrow> string \<Rightarrow> int outcome" where
  "run_command b w a cmd =
     (if cmd = ''clang'' then
        build_clang b w (a_version a) (a_git_ref a) (a_git_url a) (a_jobs a) (a_tag_suffix a)
      else if cmd = ''devcontainer'' then
        build_devcontainer b w (a_clang_version a) (a_tag_suffix a)
      else if cmd = ''all'' then
        build_all b w (a_clang_version a) (a_git_ref a) (a_jobs a)
      else (Inr 1, [Usage]))"

text \<open>
  \<^verbatim>\<open>main\<close> from line 356 on, for the script in directory \<open>root\<close>. The test
  \<^verbatim>\<open>not args.command\<close> holds of \<open>None\<close> and of the empty string. The builder is made
  before the \<^verbatim>\<open>try\<close> (line 360); its constructor calls the engine unless in dry-run.
\<close>

definition builder_of :: "string \<Rightarrow> args \<Rightarrow> builder" where
  "builder_of root a = \<lparr>dry_run = a_dry_run a, verbose = a_verbose a, root_dir = root\<rparr>"

definition main :: "string \<Rightarrow> world \<Rightarrow> args \<Rightarrow> int outcome" where
  "main root w a =
     (case command a of
        None \<Rightarrow> (Inr 1, [Usage])
      | Some cmd \<Rightarrow>
          if cmd = [] then (Inr 1, [Usage])
          else
            (let b = builder_of root a;
                 tr0 = (if a_dry_run a then [] else [From_env])
             in case (if a_dry_run a then None else from_env w) of
                  Some e \<Rightarrow> (Inl e, tr0)
                | None \<Rightarrow>
                    (case run_command b w a cmd of
                       (Inl KeyboardInterrupt, tr) \<Rightarrow> (Inr 130, tr0 @ tr @ [Err_interrupted])
                     | (r, tr) \<Rightarrow> (r, tr0 @ tr))))"

subsection \<open>Observations on the effects\<close>

text \<open>
  The content of file \<open>p\<close> after the effects \<open>tr\<close>, from content \<open>acc\<close>: opening in mode
  \<^verbatim>\<open>'w'\<close> empties the file, a write appends.
\<close>

fun written :: "path \<Rightarrow> string \<Rightarrow> event list \<Rightarrow> string" where
  "written p acc [] = acc"
| "written p acc (File_open q # tr) = written p (if q = p then [] else acc) tr"
| "written p acc (File_write q text # tr) = written p (if q = p then acc @ text else acc) tr"
| "written p acc (e # tr) = written p acc tr"

text \<open>The writes to files, in order.\<close>

fun file_writes :: "event list \<Rightarrow> (path \<times> string) list" where
  "file_writes [] = []"
| "file_writes (File_write p text # tr) = (p, text) # file_writes tr"
| "file_writes (e # tr) = file_writes tr"

text \<open>The effects the loop of the sink can have (lines 65-86).\<close>

fun loop_event :: "event \<Rightarrow> bool" where
  "loop_event (Echo text) = True"
| "loop_event (Say_status i m) = True"
| "loop_event (Err_build_error m) = True"
| "loop_event (File_write p text) = True"
| "loop_event (File_flush p) = True"
| "loop_event e = False"

fun is_file_close :: "event \<Rightarrow> bool" where
  "is_file_close (File_close p) = True"
| "is_file_close e = False"

fun is_log_saved :: "event \<Rightarrow> bool" where
  "is_log_saved (Log_saved p) = True"
| "is_log_saved e = False"

text \<open>
  A chunk the loop treats as a status update: it reaches the \<^verbatim>\<open>elif 'status' in chunk\<close>
  branch (line 73).
\<close>

definition is_status :: "chunk \<Rightarrow> bool" where
  "is_status c = (c_stream c = None \<and> c_status c \<noteq> None)"

definition drop_status :: "chunk list \<Rightarrow> chunk list" where
  "drop_status cs = filter (\<lambda>c. \<not> is_status c) cs"

text \<open>The calls to the engine: constructing the client, the store query, the build.\<close>

fun engine_call :: "event \<Rightarrow> bool" where
  "engine_call From_env = True"
| "engine_call (Images_get t) = True"
| "engine_call (Engine_build req) = True"
| "engine_call e = False"

fun oracle_query :: "event \<Rightarrow> bool" where
  "oracle_query (Images_get t) = True"
| "oracle_query e = False"

text \<open>The tags the engine was asked to build, in order.\<close>

fun built_tags :: "event list \<Rightarrow> string list" where
  "built_tags [] = []"
| "built_tags (Engine_build req # tr) = r_tag req # built_tags tr"
| "built_tags (e # tr) = built_tags tr"

text \<open>
  The stages of a run, in order: a stage shows as its plan in dry-run and as its build
  call, recognised by the recipe, in a live run.
\<close>

datatype stage = Compiler | Environment

fun stage_of :: "event \<Rightarrow> stage list" where
  "stage_of (Plan_clang v t ba l) = [Compiler]"
| "stage_of (Plan_devcontainer v t ba) = [Environment]"
| "stage_of (Engine_build req) =
     (if r_dockerfile req = ''Dockerfile.clang.ubuntu'' then [Compiler]
      else if r_dockerfile req = ''Dockerfile.devcontainer.clang'' then [Environment]
      else [])"
| "stage_of e = []"

definition stages_of :: "event list \<Rightarrow> stage list" where
  "stages_of tr = concat (map stage_of tr)"

subsection \<open>What the world does to a stage\<close>

text \<open>The requests the two stages send to the engine (lines 145-152 and 209-216).\<close>

definition clang_request_of ::
  "builder \<Rightarrow> int \<Rightarrow> string option \<Rightarrow> string \<Rightarrow> int \<Rightarrow> string \<Rightarrow> build_request" where
  "clang_request_of b v g u j s =
     clang_request b (clang_tag v s) (clang_build_args (git_ref_or_default v g) u j)"

definition devcontainer_request_of :: "builder \<Rightarrow> int \<Rightarrow> string \<Rightarrow> build_request" where
  "devcontainer_request_of b v s =
     devcontainer_request b (devcontainer_tag v s) [(''CLANG_BASE_IMAGE'', clang_tag v s)]"

text \<open>
  A chunk that reaches the \<^verbatim>\<open>elif 'error' in chunk\<close> branch (line 81), which ends the
  iteration. A stream runs through when it holds no such chunk: the iteration then goes on
  to the end of the stream.
\<close>

definition is_error :: "chunk \<Rightarrow> bool" where
  "is_error c = (c_stream c = None \<and> c_status c = None \<and> c_error c \<noteq> None)"

definition runs_through :: "build_stream \<Rightarrow> bool" where
  "runs_through st = list_all (\<lambda>c. \<not> is_error c) (fst st)"

text \<open>
  The world raises the external interrupt while a live compiler stage runs: at the first
  point of the stage where the world raises at all, what it raises is the interrupt. The
  points are, in program order, the build call, the opening of the log file (not under
  verbose mode) and the end of a stream that runs through.
\<close>

definition clang_interrupted ::
  "builder \<Rightarrow> world \<Rightarrow> int \<Rightarrow> string option \<Rightarrow> string \<Rightarrow> int \<Rightarrow> string \<Rightarrow> bool" where
  "clang_interrupted b w v g u j s =
     (case api_build w (clang_request_of b v g u j s) of
        Inl e \<Rightarrow> e = KeyboardInterrupt
      | Inr st \<Rightarrow>
          (case (if verbose b then None else fs_open w (clang_log_file b v)) of
             Some e \<Rightarrow> e = KeyboardInterrupt
           | None \<Rightarrow> runs_through st \<and> snd st = Some KeyboardInterrupt))"

text \<open>
  The world lets a live compiler stage through: the build call returns a stream that runs
  through and ends normally, and the log file, when one is used, opens.
\<close>

definition clang_completes ::
  "builder \<Rightarrow> world \<Rightarrow> int \<Rightarrow> string option \<Rightarrow> string \<Rightarrow> int \<Rightarrow> string \<Rightarrow> bool" where
  "clang_completes b w v g u j s =
     (case api_build w (clang_request_of b v g u j s) of
        Inl e \<Rightarrow> False
      | Inr st \<Rightarrow>
          (case (if verbose b then None else fs_open w (clang_log_file b v)) of
             Some e \<Rightarrow> False
           | None \<Rightarrow> runs_through st \<and> snd st = None))"

text \<open>
  The world raises the external interrupt while a live environment stage runs: in the
  query of the image store, or, the image being there, in the build call or at the end of
  a stream that runs through.
\<close>

definition devcontainer_interrupted :: "builder \<Rightarrow> world \<Rightarrow> int \<Rightarrow> string \<Rightarrow> bool" where
  "devcontainer_interrupted b w v s =
     (case images_get w (clang_tag v s) of
        Some e \<Rightarrow> e = KeyboardInterrupt
      | None \<Rightarrow>
          (case api_build w (devcontainer_request_of b v s) of
             Inl e \<Rightarrow> e = KeyboardInterrupt
           | Inr st \<Rightarrow> runs_through st \<and> snd st = Some KeyboardInterrupt))"

subsection \<open>Example inputs\<close>

definition live_builder :: builder where
  "live_builder = \<lparr>dry_run = False, verbose = False, root_dir = ''/repo''\<rparr>"

definition dry_builder :: builder where
  "dry_builder = \<lparr>dry_run = True, verbose = False, root_dir = ''/repo''\<rparr>"

text \<open>An engine that holds every image and answers every build with the stream \<open>s\<close>.\<close>

definition scripted_world :: "build_stream \<Rightarrow> world" where
  "scripted_world s =
     \<lparr>from_env = None, images_get = (\<lambda>t. None), api_build = (\<lambda>req. Inr s),
      fs_open = (\<lambda>p. None)\<rparr>"

text \<open>An engine whose store is empty.\<close>

definition empty_store_world :: world where
  "empty_store_world =
     \<lparr>from_env = None, images_get = (\<lambda>t. Some (ImageNotFound t)),
      api_build = (\<lambda>req. Inr ([], None)), fs_open = (\<lambda>p. None)\<rparr>"

text \<open>An engine whose build call raises \<open>e\<close>.\<close>

definition failing_build_world :: "exn \<Rightarrow> world" where
  "failing_build_world e =
     \<lparr>from_env = None, images_get = (\<lambda>t. None), api_build = (\<lambda>req. Inl e),
      fs_open = (\<lambda>p. None)\<rparr>"

text \<open>An engine whose compiler build fails with an error event and whose other builds
  succeed.\<close>

definition failing_compiler_world :: world where
  "failing_compiler_world =
     \<lparr>from_env = None, images_get = (\<lambda>t. None),
      api_build = (\<lambda>req. if r_dockerfile req = ''Dockerfile.clang.ubuntu''
                          then Inr ([ErrorSignal ''boom''], None) else Inr ([], None)),
      fs_open = (\<lambda>p. None)\<rparr>"

text \<open>An engine that answers every build with an empty stream, beside a log file that
  cannot be opened.\<close>

definition unopenable_log_world :: world where
  "unopenable_log_world =
     \<lparr>from_env = None, images_get = (\<lambda>t. None), api_build = (\<lambda>req. Inr ([], None)),
      fs_open = (\<lambda>p. Some (OtherException ''Permission denied''))\<rparr>"

text \<open>An engine whose image store cannot be reached, while its builds would succeed.\<close>

definition oracle_down_world :: world where
  "oracle_down_world =
     \<lparr>from_env = None, images_get = (\<lambda>t. Some (APIError ''down'')),
      api_build = (\<lambda>req. Inr ([], None)), fs_open = (\<lambda>p. None)\<rparr>"

text \<open>An engine whose compiler build succeeds and whose environment build is interrupted
  after one line of output.\<close>

definition interrupted_environment_world :: world where
  "interrupted_environment_world =
     \<lparr>from_env = None, images_get = (\<lambda>t. None),
      api_build = (\<lambda>req. if r_dockerfile req = ''Dockerfile.clang.ubuntu''
                          then Inr ([], None)
                          else Inr ([TextChunk ''a''], Some KeyboardInterrupt)),
      fs_open = (\<lambda>p. None)\<rparr>"

text \<open>
  The namespaces for the command lines \<^verbatim>\<open>clang --version v\<close>,
  \<^verbatim>\<open>devcontainer --clang-version v\<close> and \<^verbatim>\<open>all --clang-version v\<close>: the defaults declared
  at lines 287-352. An attribute the subcommand does not declare is never read.
\<close>

definition devcontainer_args :: "int \<Rightarrow> args" where
  "devcontainer_args v =
     \<lparr>command = Some ''devcontainer'', a_version = v, a_clang_version = v, a_git_ref = None,
      a_git_url = default_git_url, a_jobs = 4, a_tag_suffix = [], a_dry_run = False,
      a_verbose = False\<rparr>"

definition all_args :: "int \<Rightarrow> args" where
  "all_args v =
     \<lparr>command = Some ''all'', a_version = v, a_clang_version = v, a_git_ref = None,
      a_git_url = default_git_url, a_jobs = 4, a_tag_suffix = [], a_dry_run = False,
      a_verbose = False\<rparr>"

definition clang_args :: "int \<Rightarrow> args" where
  "clang_args v =
     \<lparr>command = Some ''clang'', a_version = v, a_clang_version = v, a_git_ref = None,
      a_git_url = default_git_url, a_jobs = 4, a_tag_suffix = [], a_dry_run = False,
      a_verbose = False\<rparr>"

section \<open>Properties\<close>

subsection \<open>Formatting\<close>

lemma str_int_21: "str_int 21 = ''21''"
  by (simp add: str_int_def str_nat.simps digit_char_def)

lemma str_int_examples:
  "str_int 0 = ''0''" "str_int 7 = ''7''" "str_int 120 = ''120''" "str_int (- 305) = ''-305''"
  by (simp_all add: str_int_def str_nat.simps digit_char_def)

subsection \<open>The loop of the log sink\<close>

lemma file_writes_append: "file_writes (xs @ ys) = file_writes xs @ file_writes ys"
  by (induction xs rule: file_writes.induct) simp_all

lemma stream_loop_events: "e \<in> set (snd (stream_loop vb h cs fin)) \<Longrightarrow> loop_event e"
  by (induction cs) (auto split: option.splits prod.splits if_splits)

lemma stream_loop_drop_status_writes:
  "file_writes (snd (stream_loop vb h (drop_status cs) fin))
     = file_writes (snd (stream_loop vb h cs fin))"
  by (induction cs)
    (auto simp: drop_status_def is_status_def file_writes_append split: option.splits prod.splits)

lemma stream_loop_drop_status_result:
  "fst (stream_loop vb h (drop_status cs) fin) = fst (stream_loop vb h cs fin)"
  by (induction cs) (auto simp: drop_status_def is_status_def split: option.splits prod.splits)

lemma stream_loop_quiet_drop_status:
  "stream_loop False h (drop_status cs) fin = stream_loop False h cs fin"
  by (induction cs) (auto simp: drop_status_def is_status_def split: option.splits prod.splits)

text \<open>The loop ends by exhaustion, by the stream's own exception, or by an error event.\<close>

lemma stream_loop_Inl:
  "fst (stream_loop vb h cs fin) = Inl e \<Longrightarrow> fin = Some e \<or> (\<exists>m. e = BuildError m)"
  by (induction cs) (auto split: option.splits prod.splits)

lemma loop_event_not_close: "loop_event e \<Longrightarrow> \<not> is_file_close e \<and> \<not> is_log_saved e"
  by (cases e) simp_all

lemma loop_event_quiet:
  "loop_event e \<Longrightarrow> \<not> engine_call e \<and> \<not> oracle_query e \<and> stage_of e = []"
  by (cases e) simp_all

lemma stages_of_loop: "stages_of (snd (stream_loop vb h cs fin)) = []"
  by (auto simp: stages_of_def dest: stream_loop_events loop_event_quiet)

lemma stages_of_append: "stages_of (xs @ ys) = stages_of xs @ stages_of ys"
  by (simp add: stages_of_def)

lemma stages_of_Cons: "stages_of (x # xs) = stage_of x @ stages_of xs"
  by (simp add: stages_of_def)

lemma stream_build_output_eq:
  "stream_build_output b w s d lf =
     (case (if dry_run b then None else lf) of
        None \<Rightarrow>
          (fst (stream_loop (verbose b) None (fst s) (snd s)),
           Say_header d # snd (stream_loop (verbose b) None (fst s) (snd s)))
      | Some p \<Rightarrow>
          (case fs_open w p of
             Some e \<Rightarrow> (Inl e, [Say_header d, File_open p])
           | None \<Rightarrow>
               (fst (stream_loop (verbose b) (Some p) (fst s) (snd s)),
                Say_header d # File_open p # snd (stream_loop (verbose b) (Some p) (fst s) (snd s))
                  @ [File_close p, Log_saved p])))"
  by (simp add: stream_build_output_def case_prod_beta split: option.splits)

subsection \<open>The log sink releases its file on every exit path\<close>



text \<open>With no file to open, the sink closes and reports nothing.\<close>

lemma sink_without_file:
  assumes "dry_run b \<or> lf = None"
  shows "filter is_file_close (snd (stream_build_output b w s d lf)) = []
     \<and> filter is_log_saved (snd (stream_build_output b w s d lf)) = []"
proof -
  have h: "(if dry_run b then None else lf) = None"
    using assms by auto
  have "\<forall>e \<in> set (snd (stream_loop (verbose b) None (fst s) (snd s))). loop_event e"
    by (auto dest: stream_loop_events)
  then show ?thesis
    by (auto simp: stream_build_output_eq h filter_empty_conv dest: loop_event_not_close)
qed

subsection \<open>Log fidelity\<close>

text \<open>
  Claim C4. A live, non-verbose \<^verbatim>\<open>build_clang\<close> whose engine answers the build call with
  the events text \<open>a\<close>, text \<open>b\<close>, error \<open>boom\<close>, and whose log file opens, returns 1. The
  log file, whatever it held before, then holds \<open>ab\<close> followed by the line \<open>ERROR: boom\<close>: the three writes are \<open>a\<close>,
  \<open>b\<close> and the marker line. The last line printed is the failure notice of line 164 with
  the detail \<open>boom\<close>.
\<close>

theorem log_fidelity:
  assumes "\<not> dry_run b" and "\<not> verbose b"
    and "api_build w (clang_request b (clang_tag v s)
                        (clang_build_args (git_ref_or_default v g) u j))
         = Inr ([TextChunk ''a'', TextChunk ''b'', ErrorSignal ''boom''], None)"
    and "fs_open w (clang_log_file b v) = None"
  shows "fst (build_clang b w v g u j s) = Inr 1
     \<and> written (clang_log_file b v) old (snd (build_clang b w v g u j s))
         = ''ab'' @ ''ERROR: boom'' @ [CHR 0x0A]
     \<and> file_writes (snd (build_clang b w v g u j s))
         = [(clang_log_file b v, ''a''), (clang_log_file b v, ''b''),
            (clang_log_file b v, ''ERROR: boom'' @ [CHR 0x0A])]
     \<and> last (snd (build_clang b w v g u j s)) = Err_build_failed ''boom''"
  using assms
  by (simp add: build_clang_def try_build_def stream_build_output_def
      TextChunk_def ErrorSignal_def Let_def)

theorem log_fidelity_witness:
  "\<not> dry_run live_builder \<and> \<not> verbose live_builder
   \<and> fst (build_clang live_builder
        (scripted_world ([TextChunk ''a'', TextChunk ''b'', ErrorSignal ''boom''], None))
        21 None default_git_url 4 []) = Inr 1
   \<and> written (Child ''/repo'' ''build-clang-21.log'') ''stale''
        (snd (build_clang live_builder
          (scripted_world ([TextChunk ''a'', TextChunk ''b'', ErrorSignal ''boom''], None))
          21 None default_git_url 4 []))
      = ''abERROR: boom'' @ [CHR 0x0A]"
proof -
  have h1: "\<not> dry_run live_builder" and h2: "\<not> verbose live_builder"
    by (simp_all add: live_builder_def)
  have h3: "api_build
      (scripted_world ([TextChunk ''a'', TextChunk ''b'', ErrorSignal ''boom''], None))
      (clang_request live_builder (clang_tag 21 [])
         (clang_build_args (git_ref_or_default 21 None) default_git_url 4))
    = Inr ([TextChunk ''a'', TextChunk ''b'', ErrorSignal ''boom''], None)"
    by (simp add: scripted_world_def)
  have h4: "fs_open
      (scripted_world ([TextChunk ''a'', TextChunk ''b'', ErrorSignal ''boom''], None))
      (clang_log_file live_builder 21) = None"
    by (simp add: scripted_world_def)
  show ?thesis
    using h1 h2 log_fidelity [OF h1 h2 h3 h4, of "''stale''"]
    by (simp add: clang_log_file_def live_builder_def str_int_21)
qed

subsection \<open>An empty event sequence is a success\<close>

text \<open>
  Claim C7, amended. In a live run, when the engine answers a stage's build call with a
  stream that yields nothing and ends normally, and the log file of the stage, where it
  uses one (the compiler stage when not verbose), opens, the stage returns 0 and its last
  effect is the success notice naming the stage's tag. This holds for \<^verbatim>\<open>build_clang\<close>, and
  for \<^verbatim>\<open>build_devcontainer\<close> whenever its existence check let it reach the engine. On an
  empty stream the compiler stage returns 0 in no other case: the absence of events is not
  what makes it fail.
\<close>

theorem empty_stream_is_success:
  assumes "\<not> dry_run b"
  shows "(api_build w (clang_request b (clang_tag v s)
                        (clang_build_args (git_ref_or_default v g) u j)) = Inr ([], None)
          \<and> (verbose b \<or> fs_open w (clang_log_file b v) = None)
          \<longrightarrow> fst (build_clang b w v g u j s) = Inr 0
              \<and> last (snd (build_clang b w v g u j s)) = Ok_built (clang_tag v s))
     \<and> (api_build w (clang_request b (clang_tag v s)
                        (clang_build_args (git_ref_or_default v g) u j)) = Inr ([], None)
          \<and> fst (build_clang b w v g u j s) = Inr 0
          \<longrightarrow> verbose b \<or> fs_open w (clang_log_file b v) = None)
     \<and> (fst (image_exists b w (clang_tag v s)) = Inr True
          \<and> api_build w (devcontainer_request b (devcontainer_tag v s)
                           [(''CLANG_BASE_IMAGE'', clang_tag v s)]) = Inr ([], None)
          \<longrightarrow> fst (build_devcontainer b w v s) = Inr 0
              \<and> last (snd (build_devcontainer b w v s)) = Ok_built (devcontainer_tag v s))"
proof (intro conjI impI)
  assume h: "api_build w (clang_request b (clang_tag v s)
                        (clang_build_args (git_ref_or_default v g) u j)) = Inr ([], None)
          \<and> (verbose b \<or> fs_open w (clang_log_file b v) = None)"
  with assms show "fst (build_clang b w v g u j s) = Inr 0"
    by (auto simp: build_clang_def try_build_def stream_build_output_eq Let_def)
  from h assms show "last (snd (build_clang b w v g u j s)) = Ok_built (clang_tag v s)"
    by (auto simp: build_clang_def try_build_def stream_build_output_eq Let_def
        clang_request_def)
next
  assume h: "api_build w (clang_request b (clang_tag v s)
                        (clang_build_args (git_ref_or_default v g) u j)) = Inr ([], None)
          \<and> fst (build_clang b w v g u j s) = Inr 0"
  show "verbose b \<or> fs_open w (clang_log_file b v) = None"
  proof (rule ccontr)
    assume "\<not> (verbose b \<or> fs_open w (clang_log_file b v) = None)"
    then obtain e where "\<not> verbose b" and "fs_open w (clang_log_file b v) = Some e"
      by auto
    with h assms show False
      by (cases e)
        (auto simp: build_clang_def try_build_def stream_build_output_eq Let_def)
  qed
next
  assume h: "fst (image_exists b w (clang_tag v s)) = Inr True
          \<and> api_build w (devcontainer_request b (devcontainer_tag v s)
                           [(''CLANG_BASE_IMAGE'', clang_tag v s)]) = Inr ([], None)"
  with assms show "fst (build_devcontainer b w v s) = Inr 0"
    by (auto simp: build_devcontainer_def try_build_def stream_build_output_eq Let_def
        split: prod.splits sum.splits bool.splits)
  from h assms
  show "last (snd (build_devcontainer b w v s)) = Ok_built (devcontainer_tag v s)"
    by (auto simp: build_devcontainer_def try_build_def stream_build_output_eq Let_def
        devcontainer_request_def split: prod.splits sum.splits bool.splits)
qed

theorem empty_stream_is_success_witness:
  "\<not> dry_run live_builder
   \<and> fst (build_clang live_builder (scripted_world ([], None)) 21 None default_git_url 4 [])
       = Inr 0
   \<and> last (snd (build_clang live_builder (scripted_world ([], None)) 21 None default_git_url 4 []))
       = Ok_built ''clang-ubuntu:21''
   \<and> fst (build_devcontainer live_builder (scripted_world ([], None)) 21 []) = Inr 0
   \<and> last (snd (build_devcontainer live_builder (scripted_world ([], None)) 21 []))
       = Ok_built ''devcontainer-clang:21''"
proof -
  have live: "\<not> dry_run live_builder"
    by (simp add: live_builder_def)
  show ?thesis
    using live empty_stream_is_success [OF live, of "scripted_world ([], None)" 21 "[]" None
        default_git_url 4]
    by (simp add: scripted_world_def image_exists_def live_builder_def clang_tag_def
        devcontainer_tag_def str_int_21)
qed

text \<open>
  The claim as stated fails: on an empty stream, a live compiler stage that is not verbose
  and cannot open its log file is caught by \<^verbatim>\<open>except Exception\<close> (lines 169-171) and
  returns 1.
\<close>

theorem empty_stream_unopenable_log:
  "api_build unopenable_log_world
     (clang_request live_builder (clang_tag 21 [])
        (clang_build_args (git_ref_or_default 21 None) default_git_url 4)) = Inr ([], None)
   \<and> build_clang live_builder unopenable_log_world 21 None default_git_url 4 []
       = (Inr 1,
          [Engine_build (clang_request live_builder (clang_tag 21 [])
             (clang_build_args (git_ref_or_default 21 None) default_git_url 4)),
           Say_header ''Building Clang 21 from llvmorg-21.1.2'',
           File_open (Child ''/repo'' ''build-clang-21.log''),
           Err_unexpected ''Permission denied''])"
  by (simp add: build_clang_def try_build_def stream_build_output_def Let_def
      unopenable_log_world_def live_builder_def clang_log_file_def git_ref_or_default_def
      default_git_ref_def str_int_21)

subsection \<open>Status updates never reach the log file\<close>

lemma stream_loop_writes_origin:
  "(q, t) \<in> set (file_writes (snd (stream_loop vb h cs fin))) \<Longrightarrow>
     h = Some q \<and>
     (\<exists>c \<in> set cs. c_stream c = Some t
        \<or> (c_stream c = None \<and> c_status c = None
            \<and> (\<exists>m. c_error c = Some m \<and> t = ''ERROR: '' @ m @ [CHR 0x0A])))"
proof (induction cs)
  case Nil
  then show ?case by (simp split: option.splits)
next
  case (Cons c cs)
  then show ?case
    by (auto simp: file_writes_append split: option.splits prod.splits if_splits)
qed

text \<open>
  Claim C10. For every builder (verbose or not, live or not), stream, description and log
  file: the writes of \<^verbatim>\<open>_stream_build_output\<close> to the file, and its outcome, are the same
  as on the stream with the status updates removed; every text written is the
  \<^verbatim>\<open>'stream'\<close> text of a chunk or the \<open>ERROR:\<close> line of a chunk that has neither
  \<^verbatim>\<open>'stream'\<close> nor \<^verbatim>\<open>'status'\<close>; and when the builder is not verbose the status updates
  change no effect at all, so they show on interactive output only, and only under
  verbose mode.
\<close>

theorem status_updates_never_logged:
  "file_writes (snd (stream_build_output b w (drop_status cs, fin) d lf))
     = file_writes (snd (stream_build_output b w (cs, fin) d lf))
   \<and> fst (stream_build_output b w (drop_status cs, fin) d lf)
     = fst (stream_build_output b w (cs, fin) d lf)
   \<and> (\<forall>(q, t) \<in> set (file_writes (snd (stream_build_output b w (cs, fin) d lf))).
         lf = Some q \<and>
         (\<exists>c \<in> set cs. c_stream c = Some t
            \<or> (c_stream c = None \<and> c_status c = None
                \<and> (\<exists>m. c_error c = Some m \<and> t = ''ERROR: '' @ m @ [CHR 0x0A]))))
   \<and> (\<not> verbose b \<longrightarrow>
        stream_build_output b w (drop_status cs, fin) d lf
          = stream_build_output b w (cs, fin) d lf)"
proof -
  let ?h = "if dry_run b then None else lf"
  have w: "file_writes (snd (stream_loop (verbose b) h (drop_status cs) fin))
             = file_writes (snd (stream_loop (verbose b) h cs fin))" for h
    by (rule stream_loop_drop_status_writes)
  have r: "fst (stream_loop (verbose b) h (drop_status cs) fin)
             = fst (stream_loop (verbose b) h cs fin)" for h
    by (rule stream_loop_drop_status_result)
  have q: "\<not> verbose b \<Longrightarrow> stream_loop (verbose b) h (drop_status cs) fin
             = stream_loop (verbose b) h cs fin" for h
    by (simp add: stream_loop_quiet_drop_status)
  have fw: "set (file_writes (snd (stream_build_output b w (cs, fin) d lf)))
             \<subseteq> set (file_writes (snd (stream_loop (verbose b) ?h cs fin)))"
    by (simp add: stream_build_output_eq file_writes_append split: option.splits)
  have "file_writes (snd (stream_build_output b w (drop_status cs, fin) d lf))
     = file_writes (snd (stream_build_output b w (cs, fin) d lf))"
    using w by (simp add: stream_build_output_eq file_writes_append split: option.splits)
  moreover have "fst (stream_build_output b w (drop_status cs, fin) d lf)
     = fst (stream_build_output b w (cs, fin) d lf)"
    using r by (simp add: stream_build_output_eq split: option.splits)
  moreover have "\<forall>(q, t) \<in> set (file_writes (snd (stream_build_output b w (cs, fin) d lf))).
         lf = Some q \<and>
         (\<exists>c \<in> set cs. c_stream c = Some t
            \<or> (c_stream c = None \<and> c_status c = None
                \<and> (\<exists>m. c_error c = Some m \<and> t = ''ERROR: '' @ m @ [CHR 0x0A])))"
  proof (clarify)
    fix q t
    assume "(q, t) \<in> set (file_writes (snd (stream_build_output b w (cs, fin) d lf)))"
    then have "(q, t) \<in> set (file_writes (snd (stream_loop (verbose b) ?h cs fin)))"
      using fw by blast
    from stream_loop_writes_origin [OF this]
    show "lf = Some q \<and>
         (\<exists>c \<in> set cs. c_stream c = Some t
            \<or> (c_stream c = None \<and> c_status c = None
                \<and> (\<exists>m. c_error c = Some m \<and> t = ''ERROR: '' @ m @ [CHR 0x0A])))"
      by (auto split: if_splits)
  qed
  moreover have "\<not> verbose b \<longrightarrow>
        stream_build_output b w (drop_status cs, fin) d lf
          = stream_build_output b w (cs, fin) d lf"
    using q by (simp add: stream_build_output_eq split: option.splits)
  ultimately show ?thesis by blast
qed

theorem status_updates_never_logged_witness:
  "file_writes (snd (stream_build_output (live_builder\<lparr>verbose := True\<rparr>) (scripted_world ([], None))
       ([TextChunk ''a'', StatusUpdate (Some ''l1'') ''Pulling'', StatusUpdate None ''Done'',
         TextChunk ''b''], None) ''d'' (Some (Child ''/repo'' ''x.log''))))
     = [(Child ''/repo'' ''x.log'', ''a''), (Child ''/repo'' ''x.log'', ''b'')]"
  using status_updates_never_logged [of "live_builder\<lparr>verbose := True\<rparr>"
      "scripted_world ([], None)" "[TextChunk ''a'', StatusUpdate (Some ''l1'') ''Pulling'', StatusUpdate None ''Done'',
         TextChunk ''b'']" None "''d''" "Some (Child ''/repo'' ''x.log'')"]
  by (simp add: drop_status_def is_status_def TextChunk_def StatusUpdate_def
      stream_build_output_def live_builder_def scripted_world_def)

subsection \<open>The effects of one live stage\<close>

lemma try_build_trace:
  "\<exists>rest. snd (try_build b w req d lf) = Engine_build req # rest
      \<and> (\<forall>e \<in> set rest. \<not> engine_call e \<and> stage_of e = [])"
  by (auto simp: try_build_def stream_build_output_eq
      split: sum.splits prod.splits option.splits
      dest!: stream_loop_events loop_event_quiet)

lemma except_clauses_trace:
  "\<exists>extra. snd (except_clauses (r, tr)) = tr @ extra
      \<and> (\<forall>e \<in> set extra. \<not> engine_call e \<and> stage_of e = [])"
proof (cases r)
  case (Inl e)
  then show ?thesis by (cases e) simp_all
next
  case (Inr c)
  then show ?thesis by simp
qed

lemma except_clauses_codes:
  "fst (except_clauses (r, tr)) = Inr c \<Longrightarrow> r = Inr c \<or> c = 1"
  by (cases "(r, tr)" rule: except_clauses.cases) auto

lemma except_clauses_Inl:
  "fst (except_clauses (r, tr)) = Inl e \<Longrightarrow> \<not> is_exception e \<and> r = Inl e"
  by (cases "(r, tr)" rule: except_clauses.cases) auto

lemma try_build_codes: "fst (try_build b w req d lf) = Inr c \<Longrightarrow> c = 0"
  by (auto simp: try_build_def split: sum.splits prod.splits)

lemma live_stage_trace:
  "\<exists>rest. snd (except_clauses (try_build b w req d lf)) = Engine_build req # rest
      \<and> (\<forall>e \<in> set rest. \<not> engine_call e \<and> stage_of e = [])"
proof -
  obtain r tr where t: "try_build b w req d lf = (r, tr)"
    by (cases "try_build b w req d lf")
  obtain rest where 1: "tr = Engine_build req # rest"
    and 2: "\<forall>e \<in> set rest. \<not> engine_call e \<and> stage_of e = []"
    using try_build_trace [of b w req d lf] t by auto
  obtain extra where 3: "snd (except_clauses (r, tr)) = tr @ extra"
    and 4: "\<forall>e \<in> set extra. \<not> engine_call e \<and> stage_of e = []"
    using except_clauses_trace by blast
  from 1 3 t have "snd (except_clauses (try_build b w req d lf)) = Engine_build req # (rest @ extra)"
    by simp
  with 2 4 show ?thesis by auto
qed

lemma live_stage_codes:
  "fst (except_clauses (try_build b w req d lf)) = Inr c \<Longrightarrow> c = 0 \<or> c = 1"
proof -
  assume a: "fst (except_clauses (try_build b w req d lf)) = Inr c"
  obtain r tr where t: "try_build b w req d lf = (r, tr)"
    by (cases "try_build b w req d lf")
  from a t have "r = Inr c \<or> c = 1"
    using except_clauses_codes [of r tr c] by simp
  then show ?thesis
    using try_build_codes [of b w req d lf c] t by auto
qed

subsection \<open>The compiler stage\<close>

lemma build_clang_live:
  "\<not> dry_run b \<Longrightarrow>
   build_clang b w v g u j s =
     except_clauses
       (try_build b w (clang_request b (clang_tag v s)
                         (clang_build_args (git_ref_or_default v g) u j))
          (''Building Clang '' @ str_int v @ '' from '' @ git_ref_or_default v g)
          (if \<not> verbose b then Some (clang_log_file b v) else None))"
  by (simp add: build_clang_def Let_def)

lemma build_clang_dry:
  "dry_run b \<Longrightarrow>
   build_clang b w v g u j s =
     (Inr 0, [Plan_clang v (clang_tag v s) (clang_build_args (git_ref_or_default v g) u j)
                (clang_log_file b v)])"
  by (simp add: build_clang_def Let_def)

lemma build_clang_trace:
  "\<exists>first rest. snd (build_clang b w v g u j s) = first # rest
      \<and> \<not> oracle_query first \<and> stage_of first = [Compiler]
      \<and> (\<forall>e \<in> set rest. \<not> engine_call e \<and> stage_of e = [])"
proof (cases "dry_run b")
  case True
  then show ?thesis by (simp add: build_clang_dry)
next
  case False
  show ?thesis
    unfolding build_clang_live [OF False]
    using live_stage_trace [of b w "clang_request b (clang_tag v s)
        (clang_build_args (git_ref_or_default v g) u j)"
        "''Building Clang '' @ str_int v @ '' from '' @ git_ref_or_default v g"
        "if \<not> verbose b then Some (clang_log_file b v) else None"]
    by (auto simp: clang_request_def)
qed

lemma not_engine_call_not_query: "\<not> engine_call e \<Longrightarrow> \<not> oracle_query e"
  by (cases e) simp_all

lemma build_clang_no_query: "filter oracle_query (snd (build_clang b w v g u j s)) = []"
proof -
  obtain first rest where "snd (build_clang b w v g u j s) = first # rest"
    and "\<not> oracle_query first" and "\<forall>e \<in> set rest. \<not> engine_call e \<and> stage_of e = []"
    using build_clang_trace by blast
  then show ?thesis
    by (auto simp: filter_empty_conv dest: not_engine_call_not_query)
qed

lemma build_clang_stages: "stages_of (snd (build_clang b w v g u j s)) = [Compiler]"
proof -
  obtain first rest where "snd (build_clang b w v g u j s) = first # rest"
    and "stage_of first = [Compiler]" and "\<forall>e \<in> set rest. \<not> engine_call e \<and> stage_of e = []"
    using build_clang_trace by blast
  then show ?thesis
    by (simp add: stages_of_def)
qed

lemma build_clang_codes: "fst (build_clang b w v g u j s) = Inr c \<Longrightarrow> c = 0 \<or> c = 1"
  by (cases "dry_run b") (auto simp: build_clang_dry build_clang_live dest: live_stage_codes)

subsection \<open>Short-circuit in \<^verbatim>\<open>build_all\<close>\<close>

text \<open>
  Claim C2. Whenever \<^verbatim>\<open>build_clang\<close>, called as \<^verbatim>\<open>build_all\<close> calls it, returns a result
  other than 0, \<^verbatim>\<open>build_all\<close> returns that same result and its effects are its banner
  followed by the effects of the compiler stage and nothing more: no query of the image
  store, the compiler stage as the only stage, and at most one call to the engine (the
  compiler's build call).
\<close>

theorem compiler_failure_short_circuits:
  assumes "build_clang b w v g default_git_url j [] = (Inr r, tr)" and "r \<noteq> 0"
  shows "build_all b w v g j = (Inr r, Say_all v # tr)
     \<and> filter oracle_query (snd (build_all b w v g j)) = []
     \<and> stages_of (snd (build_all b w v g j)) = [Compiler]
     \<and> length (filter engine_call (snd (build_all b w v g j))) \<le> 1"
proof -
  have res: "build_all b w v g j = (Inr r, Say_all v # tr)"
    using assms by (simp add: build_all_def)
  have tr: "tr = snd (build_clang b w v g default_git_url j [])"
    using assms by simp
  have q: "filter oracle_query tr = []"
    unfolding tr by (rule build_clang_no_query)
  have st: "stages_of tr = [Compiler]"
    unfolding tr by (rule build_clang_stages)
  obtain first rest where "tr = first # rest"
    and "\<forall>e \<in> set rest. \<not> engine_call e \<and> stage_of e = []"
    using build_clang_trace [of b w v g default_git_url j "[]"] tr by auto
  then have "length (filter engine_call tr) \<le> 1"
    by (auto simp: filter_empty_conv)
  with res q st show ?thesis
    by (simp add: stages_of_Cons)
qed

theorem compiler_failure_short_circuits_witness:
  "build_all live_builder failing_compiler_world 21 None 4
     = (Inr 1, Say_all 21 # snd (build_clang live_builder failing_compiler_world 21 None
                                   default_git_url 4 []))
   \<and> stages_of (snd (build_all live_builder failing_compiler_world 21 None 4)) = [Compiler]"
proof -
  have h: "build_clang live_builder failing_compiler_world 21 None default_git_url 4 []
     = (Inr 1, snd (build_clang live_builder failing_compiler_world 21 None default_git_url 4 []))"
    by (simp add: build_clang_def Let_def live_builder_def failing_compiler_world_def
        try_build_def stream_build_output_def clang_request_def ErrorSignal_def)
  show ?thesis
    using compiler_failure_short_circuits [OF h] by auto
qed

subsection \<open>The environment stage\<close>

lemma image_exists_dry: "dry_run b \<Longrightarrow> image_exists b w t = (Inr True, [])"
  by (simp add: image_exists_def)

lemma build_devcontainer_dry:
  "dry_run b \<Longrightarrow>
   build_devcontainer b w v s =
     (Inr 0, [Plan_devcontainer v (devcontainer_tag v s) [(''CLANG_BASE_IMAGE'', clang_tag v s)]])"
  by (simp add: build_devcontainer_def image_exists_def Let_def)

text \<open>A live \<^verbatim>\<open>build_devcontainer\<close>, by the three answers of the image store.\<close>

lemma build_devcontainer_live_present:
  assumes "\<not> dry_run b" and "images_get w (clang_tag v s) = None"
  shows "build_devcontainer b w v s =
     (fst (except_clauses
            (try_build b w (devcontainer_request b (devcontainer_tag v s)
                              [(''CLANG_BASE_IMAGE'', clang_tag v s)])
               (''Building devcontainer with Clang '' @ str_int v) None)),
      Images_get (clang_tag v s)
      # snd (except_clauses
            (try_build b w (devcontainer_request b (devcontainer_tag v s)
                              [(''CLANG_BASE_IMAGE'', clang_tag v s)])
               (''Building devcontainer with Clang '' @ str_int v) None)))"
  using assms by (simp add: build_devcontainer_def image_exists_def Let_def case_prod_beta)

lemma build_devcontainer_live_absent:
  assumes "\<not> dry_run b" and "images_get w (clang_tag v s) = Some (ImageNotFound m)"
  shows "build_devcontainer b w v s =
     (Inr 1, [Images_get (clang_tag v s), Err_base_missing (clang_tag v s),
              Err_hint (hint_command v)])"
  using assms by (simp add: build_devcontainer_def image_exists_def Let_def)

lemma build_devcontainer_live_fault:
  assumes "\<not> dry_run b" and "images_get w (clang_tag v s) = Some e"
    and "\<And>m. e \<noteq> ImageNotFound m"
  shows "build_devcontainer b w v s = (Inl e, [Images_get (clang_tag v s)])"
  using assms by (cases e) (auto simp: build_devcontainer_def image_exists_def Let_def)

lemma images_get_cases:
  obtains (present) "images_get w t = None"
  | (absent) m where "images_get w t = Some (ImageNotFound m)"
  | (fault) e where "images_get w t = Some e" and "\<And>m. e \<noteq> ImageNotFound m"
proof (cases "images_get w t")
  case None
  then show ?thesis by (rule present)
next
  case (Some e)
  then show ?thesis by (cases e) (auto intro: absent fault)
qed

lemma build_devcontainer_codes: "fst (build_devcontainer b w v s) = Inr c \<Longrightarrow> c = 0 \<or> c = 1"
proof (cases "dry_run b")
  case True
  assume "fst (build_devcontainer b w v s) = Inr c"
  with True show ?thesis by (simp add: build_devcontainer_dry)
next
  case False
  assume a: "fst (build_devcontainer b w v s) = Inr c"
  show ?thesis
  proof (cases rule: images_get_cases [of w "clang_tag v s"])
    case present
    with a False show ?thesis
      by (auto simp: build_devcontainer_live_present dest: live_stage_codes)
  next
    case (absent m)
    with a False show ?thesis by (simp add: build_devcontainer_live_absent)
  next
    case (fault e)
    with a False show ?thesis by (simp add: build_devcontainer_live_fault)
  qed
qed

lemma build_devcontainer_success_stages:
  assumes "\<not> dry_run b" and "fst (build_devcontainer b w v s) = Inr 0"
  shows "stages_of (snd (build_devcontainer b w v s)) = [Environment]"
proof (cases rule: images_get_cases [of w "clang_tag v s"])
  case present
  obtain rest where "snd (except_clauses
            (try_build b w (devcontainer_request b (devcontainer_tag v s)
                              [(''CLANG_BASE_IMAGE'', clang_tag v s)])
               (''Building devcontainer with Clang '' @ str_int v) None))
       = Engine_build (devcontainer_request b (devcontainer_tag v s)
                              [(''CLANG_BASE_IMAGE'', clang_tag v s)]) # rest"
    and "\<forall>e \<in> set rest. \<not> engine_call e \<and> stage_of e = []"
    using live_stage_trace by blast
  then show ?thesis
    using assms present
    by (simp add: build_devcontainer_live_present stages_of_def devcontainer_request_def)
next
  case (absent m)
  with assms show ?thesis by (simp add: build_devcontainer_live_absent)
next
  case (fault e)
  with assms show ?thesis by (simp add: build_devcontainer_live_fault)
qed

lemma build_all_success:
  assumes "fst (build_all b w v g j) = Inr 0"
  shows "fst (build_clang b w v g default_git_url j []) = Inr 0
     \<and> fst (build_devcontainer b w v []) = Inr 0
     \<and> snd (build_all b w v g j)
        = Say_all v # snd (build_clang b w v g default_git_url j [])
          @ snd (build_devcontainer b w v []) @ [Ok_all v]"
  using assms
  by (auto simp: build_all_def split: prod.splits sum.splits if_splits)

lemma build_all_dry:
  assumes "dry_run b"
  shows "build_all b w v g j =
     (Inr 0, [Say_all v,
              Plan_clang v (clang_tag v []) (clang_build_args (git_ref_or_default v g)
                 default_git_url j) (clang_log_file b v),
              Plan_devcontainer v (devcontainer_tag v []) [(''CLANG_BASE_IMAGE'', clang_tag v [])],
              Ok_all v])"
  using assms by (simp add: build_all_def build_clang_dry build_devcontainer_dry)

lemma run_command_dry:
  assumes "dry_run b"
  shows "\<exists>c tr. run_command b w a cmd = (Inr c, tr) \<and> filter engine_call tr = []"
  using assms
  by (simp add: run_command_def build_all_dry build_clang_dry build_devcontainer_dry)

subsection \<open>Dry-run plans without the engine\<close>

text \<open>
  Claim C6. For a dry-run builder and every engine: \<^verbatim>\<open>_image_exists\<close> answers true with no
  effect at all; \<^verbatim>\<open>build_clang\<close> and \<^verbatim>\<open>build_devcontainer\<close> return 0 and only print their
  plan; \<^verbatim>\<open>build_all\<close> returns 0, calls the engine not once (no client, no store query, no
  build) and runs the stages in the order compiler, environment. Every live run of the
  same function that returns 0 shows the same stages in the same order. \<^verbatim>\<open>main\<close> under
  \<^verbatim>\<open>--dry-run\<close> makes no call to the engine whatever the command.
\<close>

theorem dry_run_is_offline:
  assumes "dry_run b"
  shows "image_exists b w t = (Inr True, [])
     \<and> build_clang b w v g u j s
         = (Inr 0, [Plan_clang v (clang_tag v s)
                      (clang_build_args (git_ref_or_default v g) u j) (clang_log_file b v)])
     \<and> build_devcontainer b w v s
         = (Inr 0, [Plan_devcontainer v (devcontainer_tag v s)
                      [(''CLANG_BASE_IMAGE'', clang_tag v s)]])
     \<and> fst (build_all b w v g j) = Inr 0
     \<and> filter engine_call (snd (build_all b w v g j)) = []
     \<and> stages_of (snd (build_all b w v g j)) = [Compiler, Environment]
     \<and> (\<forall>b' w'. \<not> dry_run b' \<and> fst (build_all b' w' v g j) = Inr 0 \<longrightarrow>
           stages_of (snd (build_all b' w' v g j)) = stages_of (snd (build_all b w v g j)))
     \<and> (\<forall>b' w'. \<not> dry_run b' \<and> fst (build_clang b' w' v g u j s) = Inr 0 \<longrightarrow>
           stages_of (snd (build_clang b' w' v g u j s))
             = stages_of (snd (build_clang b w v g u j s)))
     \<and> (\<forall>b' w'. \<not> dry_run b' \<and> fst (build_devcontainer b' w' v s) = Inr 0 \<longrightarrow>
           stages_of (snd (build_devcontainer b' w' v s))
             = stages_of (snd (build_devcontainer b w v s)))
     \<and> (\<forall>root a. a_dry_run a \<longrightarrow> filter engine_call (snd (main root w a)) = [])"
proof -
  have dry_stages: "stages_of (snd (build_all b w v g j)) = [Compiler, Environment]"
    using assms by (simp add: build_all_dry stages_of_def)
  have live_all: "stages_of (snd (build_all b' w' v g j)) = [Compiler, Environment]"
    if "\<not> dry_run b'" and "fst (build_all b' w' v g j) = Inr 0" for b' w'
  proof -
    from build_all_success [OF that(2)]
    have d: "fst (build_devcontainer b' w' v []) = Inr 0"
      and t: "snd (build_all b' w' v g j)
        = Say_all v # snd (build_clang b' w' v g default_git_url j [])
          @ snd (build_devcontainer b' w' v []) @ [Ok_all v]"
      by simp_all
    show ?thesis
      unfolding t
      by (simp add: stages_of_Cons stages_of_append build_clang_stages
          build_devcontainer_success_stages [OF that(1) d])
        (simp add: stages_of_def)
  qed
  have main_dry: "filter engine_call (snd (main root w a)) = []" if "a_dry_run a" for root a
  proof (cases "command a")
    case None
    then show ?thesis by (simp add: main_def)
  next
    case (Some cmd)
    have "dry_run (builder_of root a)"
      using that by (simp add: builder_of_def)
    from run_command_dry [OF this]
    obtain c tr where "run_command (builder_of root a) w a cmd = (Inr c, tr)"
      and "filter engine_call tr = []"
      by blast
    with Some that show ?thesis
      by (simp add: main_def)
  qed
  have dry_clang: "stages_of (snd (build_clang b w v g u j s)) = [Compiler]"
    by (rule build_clang_stages)
  have dry_dev: "stages_of (snd (build_devcontainer b w v s)) = [Environment]"
    using assms by (simp add: build_devcontainer_dry stages_of_def)
  have calls: "filter engine_call (snd (build_all b w v g j)) = []"
    using assms by (simp add: build_all_dry)
  have code: "fst (build_all b w v g j) = Inr 0"
    using assms by (simp add: build_all_dry)
  show ?thesis
    using image_exists_dry [OF assms] build_clang_dry [OF assms]
      build_devcontainer_dry [OF assms] code calls dry_stages live_all main_dry
      dry_clang dry_dev build_clang_stages build_devcontainer_success_stages
    by (intro conjI allI impI) simp_all
qed


theorem dry_run_is_offline_witness:
  "dry_run dry_builder
   \<and> build_all dry_builder empty_store_world 21 None 4
       = (Inr 0, [Say_all 21,
                  Plan_clang 21 ''clang-ubuntu:21''
                    [(''LLVM_GIT_REF'', ''llvmorg-21.1.2''),
                     (''LLVM_GIT_URL'', ''https://github.com/llvm/llvm-project.git''),
                     (''NUM_JOBS'', ''4'')]
                    (Child ''/repo'' ''build-clang-21.log''),
                  Plan_devcontainer 21 ''devcontainer-clang:21''
                    [(''CLANG_BASE_IMAGE'', ''clang-ubuntu:21'')],
                  Ok_all 21])
   \<and> \<not> dry_run live_builder
   \<and> fst (build_all live_builder (scripted_world ([], None)) 21 None 4) = Inr 0
   \<and> stages_of (snd (build_all live_builder (scripted_world ([], None)) 21 None 4))
       = [Compiler, Environment]"
proof -
  have d: "dry_run dry_builder"
    by (simp add: dry_builder_def)
  have l: "\<not> dry_run live_builder"
    by (simp add: live_builder_def)
  have ok: "fst (build_all live_builder (scripted_world ([], None)) 21 None 4) = Inr 0"
    by (simp add: build_all_def build_clang_def build_devcontainer_def image_exists_def
        try_build_def stream_build_output_def live_builder_def scripted_world_def Let_def)
  have four: "str_int 4 = ''4''"
    by (simp add: str_int_def str_nat.simps digit_char_def)
  have plan: "build_all dry_builder empty_store_world 21 None 4
       = (Inr 0, [Say_all 21,
                  Plan_clang 21 ''clang-ubuntu:21''
                    [(''LLVM_GIT_REF'', ''llvmorg-21.1.2''),
                     (''LLVM_GIT_URL'', ''https://github.com/llvm/llvm-project.git''),
                     (''NUM_JOBS'', ''4'')]
                    (Child ''/repo'' ''build-clang-21.log''),
                  Plan_devcontainer 21 ''devcontainer-clang:21''
                    [(''CLANG_BASE_IMAGE'', ''clang-ubuntu:21'')],
                  Ok_all 21])"
    by (simp add: build_all_def build_clang_def build_devcontainer_def image_exists_def
        dry_builder_def Let_def clang_tag_def devcontainer_tag_def clang_build_args_def
        git_ref_or_default_def default_git_ref_def default_git_url_def clang_log_file_def
        str_int_21 four)
  from dry_run_is_offline [OF d, where w = empty_store_world and v = 21 and g = None and j = 4]
  have "stages_of (snd (build_all dry_builder empty_store_world 21 None 4))
          = [Compiler, Environment]"
    and "\<forall>b' w'. \<not> dry_run b' \<and> fst (build_all b' w' 21 None 4) = Inr 0 \<longrightarrow>
           stages_of (snd (build_all b' w' 21 None 4))
             = stages_of (snd (build_all dry_builder empty_store_world 21 None 4))"
    by blast+
  with l ok have "stages_of (snd (build_all live_builder (scripted_world ([], None)) 21 None 4))
       = [Compiler, Environment]"
    by metis
  with d l ok plan show ?thesis
    by blast
qed

subsection \<open>Tag and source-ref derivation\<close>

lemma built_tags_quiet: "(\<forall>e \<in> set tr. \<not> engine_call e) \<Longrightarrow> built_tags tr = []"
  by (induction tr rule: built_tags.induct) simp_all

lemma build_clang_built_tags:
  "built_tags (snd (build_clang b w v g u j s)) = (if dry_run b then [] else [clang_tag v s])"
proof (cases "dry_run b")
  case True
  then show ?thesis by (simp add: build_clang_dry)
next
  case False
  obtain rest where "snd (except_clauses
       (try_build b w (clang_request b (clang_tag v s)
                         (clang_build_args (git_ref_or_default v g) u j))
          (''Building Clang '' @ str_int v @ '' from '' @ git_ref_or_default v g)
          (if \<not> verbose b then Some (clang_log_file b v) else None)))
      = Engine_build (clang_request b (clang_tag v s)
                         (clang_build_args (git_ref_or_default v g) u j)) # rest"
    and "\<forall>e \<in> set rest. \<not> engine_call e \<and> stage_of e = []"
    using live_stage_trace by blast
  then show ?thesis
    using False by (simp add: build_clang_live built_tags_quiet clang_request_def)
qed

text \<open>
  Claim C9. For every version \<open>v\<close> and suffix \<open>s\<close>, the first effect of \<^verbatim>\<open>build_clang\<close> (the
  plan in dry-run, the engine's build call in a live run) carries the tag
  \<open>clang-ubuntu:\<close>\<^verbatim>\<open>{v}{s}\<close>; with no git ref supplied its build argument
  \<^verbatim>\<open>LLVM_GIT_REF\<close> is \<open>llvmorg-\<close>\<^verbatim>\<open>{v}\<close>\<open>.1.2\<close>, and a supplied ref is passed as it is. The
  only tag a live run asks the engine to build is that tag. For version 21 and the empty
  suffix the tag is \<open>clang-ubuntu:21\<close> and the default ref \<open>llvmorg-21.1.2\<close>.
\<close>

theorem compiler_tag_and_default_ref:
  "hd (snd (build_clang b w v None u j s)) =
     (if dry_run b
      then Plan_clang v (''clang-ubuntu:'' @ str_int v @ s)
             [(''LLVM_GIT_REF'', ''llvmorg-'' @ str_int v @ ''.1.2''),
              (''LLVM_GIT_URL'', u), (''NUM_JOBS'', str_int j)]
             (Child (root_dir b) (''build-clang-'' @ str_int v @ ''.log''))
      else Engine_build
             \<lparr>r_path = root_dir b, r_dockerfile = ''Dockerfile.clang.ubuntu'',
              r_tag = ''clang-ubuntu:'' @ str_int v @ s,
              r_buildargs = [(''LLVM_GIT_REF'', ''llvmorg-'' @ str_int v @ ''.1.2''),
                             (''LLVM_GIT_URL'', u), (''NUM_JOBS'', str_int j)],
              r_decode = True, r_rm = True\<rparr>)
   \<and> hd (snd (build_clang b w v (Some ref) u j s)) =
     (if dry_run b
      then Plan_clang v (''clang-ubuntu:'' @ str_int v @ s)
             [(''LLVM_GIT_REF'', ref), (''LLVM_GIT_URL'', u), (''NUM_JOBS'', str_int j)]
             (Child (root_dir b) (''build-clang-'' @ str_int v @ ''.log''))
      else Engine_build
             \<lparr>r_path = root_dir b, r_dockerfile = ''Dockerfile.clang.ubuntu'',
              r_tag = ''clang-ubuntu:'' @ str_int v @ s,
              r_buildargs = [(''LLVM_GIT_REF'', ref), (''LLVM_GIT_URL'', u),
                             (''NUM_JOBS'', str_int j)],
              r_decode = True, r_rm = True\<rparr>)
   \<and> built_tags (snd (build_clang b w v g u j s))
       = (if dry_run b then [] else [''clang-ubuntu:'' @ str_int v @ s])
   \<and> built_tags (snd (build_clang live_builder w 21 None u j [])) = [''clang-ubuntu:21'']
   \<and> git_ref_or_default 21 None = ''llvmorg-21.1.2''
   \<and> clang_tag 21 [] = ''clang-ubuntu:21''"
proof -
  have first: "hd (snd (build_clang b w v g u j s)) =
     (if dry_run b
      then Plan_clang v (clang_tag v s) (clang_build_args (git_ref_or_default v g) u j)
             (clang_log_file b v)
      else Engine_build (clang_request b (clang_tag v s)
                           (clang_build_args (git_ref_or_default v g) u j)))" for g
  proof (cases "dry_run b")
    case True
    then show ?thesis by (simp add: build_clang_dry)
  next
    case False
    obtain rest where "snd (except_clauses
       (try_build b w (clang_request b (clang_tag v s)
                         (clang_build_args (git_ref_or_default v g) u j))
          (''Building Clang '' @ str_int v @ '' from '' @ git_ref_or_default v g)
          (if \<not> verbose b then Some (clang_log_file b v) else None)))
      = Engine_build (clang_request b (clang_tag v s)
                         (clang_build_args (git_ref_or_default v g) u j)) # rest"
      using live_stage_trace by blast
    then show ?thesis
      using False by (simp add: build_clang_live)
  qed
  have l: "\<not> dry_run live_builder"
    by (simp add: live_builder_def)
  show ?thesis
    using first [of None] first [of "Some ref"] l
    by (simp add: build_clang_built_tags clang_tag_def clang_build_args_def clang_request_def
        git_ref_or_default_def default_git_ref_def clang_log_file_def str_int_21)
qed

theorem compiler_tag_and_default_ref_witness:
  "hd (snd (build_clang live_builder (scripted_world ([], None)) 21 None default_git_url 4 []))
     = Engine_build
         \<lparr>r_path = ''/repo'', r_dockerfile = ''Dockerfile.clang.ubuntu'',
          r_tag = ''clang-ubuntu:21'',
          r_buildargs = [(''LLVM_GIT_REF'', ''llvmorg-21.1.2''),
                         (''LLVM_GIT_URL'', ''https://github.com/llvm/llvm-project.git''),
                         (''NUM_JOBS'', ''4'')],
          r_decode = True, r_rm = True\<rparr>"
proof -
  have four: "str_int 4 = ''4''"
    by (simp add: str_int_def str_nat.simps digit_char_def)
  show ?thesis
    using compiler_tag_and_default_ref [of live_builder "scripted_world ([], None)" 21
        default_git_url 4 "[]"]
    by (simp add: live_builder_def str_int_21 four default_git_url_def)
qed


subsection \<open>Exit codes of \<^verbatim>\<open>main\<close>\<close>

lemma build_all_codes: "fst (build_all b w v g j) = Inr c \<Longrightarrow> c = 0 \<or> c = 1"
proof -
  assume a: "fst (build_all b w v g j) = Inr c"
  obtain r1 t1 where c: "build_clang b w v g default_git_url j [] = (r1, t1)"
    by (cases "build_clang b w v g default_git_url j []")
  obtain r2 t2 where d: "build_devcontainer b w v [] = (r2, t2)"
    by (cases "build_devcontainer b w v []")
  have c1: "r1 = Inr k \<Longrightarrow> k = 0 \<or> k = 1" for k
    using build_clang_codes [of b w v g default_git_url j "[]" k] c by simp
  have d1: "r2 = Inr k \<Longrightarrow> k = 0 \<or> k = 1" for k
    using build_devcontainer_codes [of b w v "[]" k] d by simp
  show ?thesis
    using a c d c1 d1
    by (auto simp: build_all_def split: sum.splits if_splits)
qed

lemma run_command_codes: "fst (run_command b w a cmd) = Inr c \<Longrightarrow> c = 0 \<or> c = 1"
  by (auto simp: run_command_def split: if_splits
      dest: build_clang_codes build_devcontainer_codes build_all_codes)

lemma main_started:
  assumes "command a = Some cmd" and "cmd \<noteq> []" and "a_dry_run a \<or> from_env w = None"
  shows "main root w a =
     (case run_command (builder_of root a) w a cmd of
        (Inl KeyboardInterrupt, tr) \<Rightarrow>
           (Inr 130, (if a_dry_run a then [] else [From_env]) @ tr @ [Err_interrupted])
      | (r, tr) \<Rightarrow> (r, (if a_dry_run a then [] else [From_env]) @ tr))"
  using assms by (auto simp: main_def Let_def)

subsection \<open>Where an interrupt comes from\<close>

lemma stream_loop_runs_through:
  "list_all (\<lambda>c. \<not> is_error c) cs \<Longrightarrow>
     fst (stream_loop vb h cs fin) = (case fin of None \<Rightarrow> Inr () | Some e \<Rightarrow> Inl e)"
  by (induction cs) (auto simp: is_error_def split: option.splits prod.splits)

lemma stream_loop_stopped:
  "\<not> list_all (\<lambda>c. \<not> is_error c) cs \<Longrightarrow>
     \<exists>m. fst (stream_loop vb h cs fin) = Inl (BuildError m)"
  by (induction cs) (auto simp: is_error_def split: option.splits prod.splits)

lemma stream_loop_interrupted:
  "fst (stream_loop vb h (fst st) (snd st)) = Inl KeyboardInterrupt
     \<longleftrightarrow> runs_through st \<and> snd st = Some KeyboardInterrupt"
proof (cases "list_all (\<lambda>c. \<not> is_error c) (fst st)")
  case True
  then show ?thesis
    by (simp add: runs_through_def stream_loop_runs_through split: option.splits)
next
  case False
  then show ?thesis
    using stream_loop_stopped [OF False, of vb h "snd st"]
    by (auto simp: runs_through_def)
qed

lemma stream_loop_completed:
  "fst (stream_loop vb h (fst st) (snd st)) = Inr () \<longleftrightarrow> runs_through st \<and> snd st = None"
proof (cases "list_all (\<lambda>c. \<not> is_error c) (fst st)")
  case True
  then show ?thesis
    by (simp add: runs_through_def stream_loop_runs_through split: option.splits)
next
  case False
  then show ?thesis
    using stream_loop_stopped [OF False, of vb h "snd st"]
    by (auto simp: runs_through_def)
qed

lemma try_build_interrupted:
  "fst (try_build b w req d lf) = Inl KeyboardInterrupt \<longleftrightarrow>
     (case api_build w req of
        Inl e \<Rightarrow> e = KeyboardInterrupt
      | Inr st \<Rightarrow>
          (case (if dry_run b then None else lf) of
             None \<Rightarrow> runs_through st \<and> snd st = Some KeyboardInterrupt
           | Some p \<Rightarrow>
               (case fs_open w p of
                  Some e \<Rightarrow> e = KeyboardInterrupt
                | None \<Rightarrow> runs_through st \<and> snd st = Some KeyboardInterrupt)))"
proof (cases "api_build w req")
  case (Inl e)
  then show ?thesis by (simp add: try_build_def)
next
  case (Inr st)
  have "fst (try_build b w req d lf) = Inl KeyboardInterrupt
      \<longleftrightarrow> fst (stream_build_output b w st d lf) = Inl KeyboardInterrupt"
    using Inr by (auto simp: try_build_def split: prod.splits sum.splits)
  also have "\<dots> \<longleftrightarrow>
      (case (if dry_run b then None else lf) of
             None \<Rightarrow> runs_through st \<and> snd st = Some KeyboardInterrupt
           | Some p \<Rightarrow>
               (case fs_open w p of
                  Some e \<Rightarrow> e = KeyboardInterrupt
                | None \<Rightarrow> runs_through st \<and> snd st = Some KeyboardInterrupt))"
    by (simp add: stream_build_output_eq stream_loop_interrupted split: option.splits)
  finally show ?thesis
    using Inr by simp
qed

lemma try_build_completed:
  "fst (try_build b w req d lf) = Inr 0 \<longleftrightarrow>
     (case api_build w req of
        Inl e \<Rightarrow> False
      | Inr st \<Rightarrow>
          (case (if dry_run b then None else lf) of
             None \<Rightarrow> runs_through st \<and> snd st = None
           | Some p \<Rightarrow>
               (case fs_open w p of
                  Some e \<Rightarrow> False
                | None \<Rightarrow> runs_through st \<and> snd st = None)))"
proof (cases "api_build w req")
  case (Inl e)
  then show ?thesis by (simp add: try_build_def)
next
  case (Inr st)
  have "fst (try_build b w req d lf) = Inr 0
      \<longleftrightarrow> fst (stream_build_output b w st d lf) = Inr ()"
    using Inr by (auto simp: try_build_def split: prod.splits sum.splits)
  also have "\<dots> \<longleftrightarrow>
      (case (if dry_run b then None else lf) of
             None \<Rightarrow> runs_through st \<and> snd st = None
           | Some p \<Rightarrow>
               (case fs_open w p of
                  Some e \<Rightarrow> False
                | None \<Rightarrow> runs_through st \<and> snd st = None))"
    by (simp add: stream_build_output_eq stream_loop_completed split: option.splits)
  finally show ?thesis
    using Inr by simp
qed

lemma except_clauses_interrupted:
  "fst (except_clauses x) = Inl KeyboardInterrupt \<longleftrightarrow> fst x = Inl KeyboardInterrupt"
  by (cases x rule: except_clauses.cases) simp_all

lemma except_clauses_completed:
  "fst (except_clauses x) = Inr 0 \<longleftrightarrow> fst x = Inr 0"
  by (cases x rule: except_clauses.cases) simp_all

lemma build_clang_interrupted:
  assumes "\<not> dry_run b"
  shows "fst (build_clang b w v g u j s) = Inl KeyboardInterrupt
     \<longleftrightarrow> clang_interrupted b w v g u j s"
  using assms
  by (simp add: build_clang_live except_clauses_interrupted try_build_interrupted
      clang_interrupted_def clang_request_of_def split: sum.splits)

lemma build_clang_completed:
  assumes "\<not> dry_run b"
  shows "fst (build_clang b w v g u j s) = Inr 0 \<longleftrightarrow> clang_completes b w v g u j s"
  using assms
  by (simp add: build_clang_live except_clauses_completed try_build_completed
      clang_completes_def clang_request_of_def split: sum.splits)

lemma build_devcontainer_interrupted:
  assumes "\<not> dry_run b"
  shows "fst (build_devcontainer b w v s) = Inl KeyboardInterrupt
     \<longleftrightarrow> devcontainer_interrupted b w v s"
proof (cases rule: images_get_cases [of w "clang_tag v s"])
  case present
  then show ?thesis
    using assms
    by (simp add: build_devcontainer_live_present except_clauses_interrupted
        try_build_interrupted devcontainer_interrupted_def devcontainer_request_of_def
        split: sum.splits)
next
  case (absent m)
  then show ?thesis
    using assms by (simp add: build_devcontainer_live_absent devcontainer_interrupted_def)
next
  case (fault e)
  then show ?thesis
    using assms by (simp add: build_devcontainer_live_fault devcontainer_interrupted_def)
qed

lemma build_all_interrupted:
  assumes "\<not> dry_run b"
  shows "fst (build_all b w v g j) = Inl KeyboardInterrupt
     \<longleftrightarrow> clang_interrupted b w v g default_git_url j []
         \<or> clang_completes b w v g default_git_url j [] \<and> devcontainer_interrupted b w v []"
proof -
  obtain r1 t1 where c: "build_clang b w v g default_git_url j [] = (r1, t1)"
    by (cases "build_clang b w v g default_git_url j []")
  obtain r2 t2 where d: "build_devcontainer b w v [] = (r2, t2)"
    by (cases "build_devcontainer b w v []")
  have ci: "r1 = Inl KeyboardInterrupt \<longleftrightarrow> clang_interrupted b w v g default_git_url j []"
    using build_clang_interrupted [OF assms, of w v g default_git_url j "[]"] c by simp
  have cc: "r1 = Inr 0 \<longleftrightarrow> clang_completes b w v g default_git_url j []"
    using build_clang_completed [OF assms, of w v g default_git_url j "[]"] c by simp
  have di: "r2 = Inl KeyboardInterrupt \<longleftrightarrow> devcontainer_interrupted b w v []"
    using build_devcontainer_interrupted [OF assms, of w v "[]"] d by simp
  have "fst (build_all b w v g j) = Inl KeyboardInterrupt
     \<longleftrightarrow> r1 = Inl KeyboardInterrupt \<or> r1 = Inr 0 \<and> r2 = Inl KeyboardInterrupt"
    using c d by (auto simp: build_all_def split: sum.splits if_splits)
  then show ?thesis
    by (simp only: ci cc di)
qed

text \<open>
  Claim C8. With no command, \<^verbatim>\<open>main\<close> prints the usage and returns 1. \<^verbatim>\<open>main\<close> returns 0,
  1 or 130 only, and 130 only after printing the interruption notice. In a live run, once
  the builder is constructed, each of the three commands makes \<^verbatim>\<open>main\<close> return 130 exactly
  when the world raises the external interrupt while the command runs: for \<^verbatim>\<open>clang\<close> and
  \<^verbatim>\<open>devcontainer\<close> during their stage, for \<^verbatim>\<open>all\<close> during the compiler stage or, that stage
  having completed, during the environment stage. A failure of a build, of the engine or of
  the prerequisite check is therefore never reported as 130, nor an interrupt as 1.
\<close>

theorem interrupt_exit_code:
  "(command a = None \<longrightarrow> main root w a = (Inr 1, [Usage]))
   \<and> (\<forall>c. fst (main root w a) = Inr c \<longrightarrow> c = 0 \<or> c = 1 \<or> c = 130)
   \<and> (fst (main root w a) = Inr 130 \<longrightarrow> last (snd (main root w a)) = Err_interrupted)
   \<and> (\<not> a_dry_run a \<and> from_env w = None \<longrightarrow>
        (command a = Some ''clang'' \<longrightarrow>
           (fst (main root w a) = Inr 130)
             = clang_interrupted (builder_of root a) w (a_version a) (a_git_ref a)
                 (a_git_url a) (a_jobs a) (a_tag_suffix a))
      \<and> (command a = Some ''devcontainer'' \<longrightarrow>
           (fst (main root w a) = Inr 130)
             = devcontainer_interrupted (builder_of root a) w (a_clang_version a)
                 (a_tag_suffix a))
      \<and> (command a = Some ''all'' \<longrightarrow>
           (fst (main root w a) = Inr 130)
             = (clang_interrupted (builder_of root a) w (a_clang_version a) (a_git_ref a)
                  default_git_url (a_jobs a) []
                \<or> clang_completes (builder_of root a) w (a_clang_version a) (a_git_ref a)
                     default_git_url (a_jobs a) []
                   \<and> devcontainer_interrupted (builder_of root a) w (a_clang_version a) [])))"
proof -
  have none: "command a = None \<longrightarrow> main root w a = (Inr 1, [Usage])"
    by (simp add: main_def)
  have started: "(fst (main root w a) = Inr 130
                    \<longleftrightarrow> fst (run_command (builder_of root a) w a cmd) = Inl KeyboardInterrupt)
      \<and> (fst (main root w a) = Inr 130 \<longrightarrow> last (snd (main root w a)) = Err_interrupted)
      \<and> (\<forall>c. fst (main root w a) = Inr c \<longrightarrow> c = 0 \<or> c = 1 \<or> c = 130)"
    if s: "command a = Some cmd" "cmd \<noteq> []" "a_dry_run a \<or> from_env w = None" for cmd
  proof -
    obtain r tr where rc: "run_command (builder_of root a) w a cmd = (r, tr)"
      by (cases "run_command (builder_of root a) w a cmd")
    have codes: "r = Inr c \<Longrightarrow> c = 0 \<or> c = 1" for c
      using run_command_codes [of "builder_of root a" w a cmd c] rc by simp
    show ?thesis
    proof (cases r)
      case (Inl e)
      then show ?thesis
        using rc by (cases e) (simp_all add: main_started [OF s])
    next
      case (Inr c)
      then show ?thesis
        using rc codes [of c] by (auto simp: main_started [OF s])
    qed
  qed
  have codes: "\<forall>c. fst (main root w a) = Inr c \<longrightarrow> c = 0 \<or> c = 1 \<or> c = 130"
  proof (cases "command a")
    case None
    then show ?thesis by (simp add: main_def)
  next
    case (Some cmd)
    show ?thesis
    proof (cases "cmd = []")
      case True
      with Some show ?thesis by (simp add: main_def)
    next
      case False
      show ?thesis
      proof (cases "a_dry_run a \<or> from_env w = None")
        case True
        from started [OF Some False True] show ?thesis by blast
      next
        case False
        then obtain e where "\<not> a_dry_run a" and "from_env w = Some e"
          by auto
        with Some \<open>cmd \<noteq> []\<close> show ?thesis by (simp add: main_def Let_def)
      qed
    qed
  qed
  have notice: "fst (main root w a) = Inr 130 \<longrightarrow> last (snd (main root w a)) = Err_interrupted"
  proof (cases "command a")
    case None
    then show ?thesis by (simp add: main_def)
  next
    case (Some cmd)
    show ?thesis
    proof (cases "cmd = []")
      case True
      with Some show ?thesis by (simp add: main_def)
    next
      case False
      show ?thesis
      proof (cases "a_dry_run a \<or> from_env w = None")
        case True
        from started [OF Some False True] show ?thesis by blast
      next
        case False
        then obtain e where "\<not> a_dry_run a" and "from_env w = Some e"
          by auto
        with Some \<open>cmd \<noteq> []\<close> show ?thesis by (simp add: main_def Let_def)
      qed
    qed
  qed
  have live: "(command a = Some ''clang'' \<longrightarrow>
           (fst (main root w a) = Inr 130)
             = clang_interrupted (builder_of root a) w (a_version a) (a_git_ref a)
                 (a_git_url a) (a_jobs a) (a_tag_suffix a))
      \<and> (command a = Some ''devcontainer'' \<longrightarrow>
           (fst (main root w a) = Inr 130)
             = devcontainer_interrupted (builder_of root a) w (a_clang_version a)
                 (a_tag_suffix a))
      \<and> (command a = Some ''all'' \<longrightarrow>
           (fst (main root w a) = Inr 130)
             = (clang_interrupted (builder_of root a) w (a_clang_version a) (a_git_ref a)
                  default_git_url (a_jobs a) []
                \<or> clang_completes (builder_of root a) w (a_clang_version a) (a_git_ref a)
                     default_git_url (a_jobs a) []
                   \<and> devcontainer_interrupted (builder_of root a) w (a_clang_version a) []))"
    if l: "\<not> a_dry_run a" "from_env w = None"
  proof -
    have lb: "\<not> dry_run (builder_of root a)"
      using l by (simp add: builder_of_def)
    have e: "a_dry_run a \<or> from_env w = None"
      using l by simp
    have n: "''clang'' \<noteq> []" "''devcontainer'' \<noteq> []" "''all'' \<noteq> []"
      by simp_all
    have 1: "(fst (main root w a) = Inr 130)
             = clang_interrupted (builder_of root a) w (a_version a) (a_git_ref a)
                 (a_git_url a) (a_jobs a) (a_tag_suffix a)"
      if c: "command a = Some ''clang''"
      using started [OF c n(1) e]
      by (simp add: run_command_def build_clang_interrupted [OF lb])
    have 2: "(fst (main root w a) = Inr 130)
             = devcontainer_interrupted (builder_of root a) w (a_clang_version a)
                 (a_tag_suffix a)"
      if c: "command a = Some ''devcontainer''"
      using started [OF c n(2) e]
      by (simp add: run_command_def build_devcontainer_interrupted [OF lb])
    have 3: "(fst (main root w a) = Inr 130)
             = (clang_interrupted (builder_of root a) w (a_clang_version a) (a_git_ref a)
                  default_git_url (a_jobs a) []
                \<or> clang_completes (builder_of root a) w (a_clang_version a) (a_git_ref a)
                     default_git_url (a_jobs a) []
                   \<and> devcontainer_interrupted (builder_of root a) w (a_clang_version a) [])"
      if c: "command a = Some ''all''"
      using started [OF c n(3) e]
      by (simp add: run_command_def build_all_interrupted [OF lb])
    from 1 2 3 show ?thesis by blast
  qed
  from none codes notice live show ?thesis
    by (intro conjI impI) (simp_all only:, blast+)
qed

theorem interrupt_exit_code_witness:
  "fst (main ''/repo'' (scripted_world ([TextChunk ''a''], Some KeyboardInterrupt))
          (clang_args 21)) = Inr 130
   \<and> fst (main ''/repo'' interrupted_environment_world (devcontainer_args 21)) = Inr 130
   \<and> fst (main ''/repo'' interrupted_environment_world (all_args 21)) = Inr 130
   \<and> fst (main ''/repo'' failing_compiler_world (all_args 21)) = Inr 1"
proof -
  let ?w = "scripted_world ([TextChunk ''a''], Some KeyboardInterrupt)"
  have 1: "fst (main ''/repo'' ?w (clang_args 21)) = Inr 130"
    using interrupt_exit_code [of "clang_args 21" "''/repo''" ?w]
    by (simp add: clang_args_def scripted_world_def clang_interrupted_def runs_through_def
        is_error_def TextChunk_def builder_of_def)
  have 2: "fst (main ''/repo'' interrupted_environment_world (devcontainer_args 21)) = Inr 130"
    using interrupt_exit_code [of "devcontainer_args 21" "''/repo''"
        interrupted_environment_world]
    by (simp add: devcontainer_args_def interrupted_environment_world_def
        devcontainer_interrupted_def devcontainer_request_of_def devcontainer_request_def
        runs_through_def is_error_def TextChunk_def builder_of_def)
  have 3: "fst (main ''/repo'' interrupted_environment_world (all_args 21)) = Inr 130"
    using interrupt_exit_code [of "all_args 21" "''/repo''" interrupted_environment_world]
    by (simp add: all_args_def interrupted_environment_world_def
        clang_interrupted_def clang_completes_def clang_request_of_def clang_request_def
        devcontainer_interrupted_def devcontainer_request_of_def devcontainer_request_def
        runs_through_def is_error_def TextChunk_def builder_of_def)
  have 4: "fst (main ''/repo'' failing_compiler_world (all_args 21)) = Inr 1"
    by (simp add: main_def run_command_def all_args_def builder_of_def build_all_def
        build_clang_def try_build_def stream_build_output_def failing_compiler_world_def
        clang_request_def ErrorSignal_def Let_def)
  from 1 2 3 4 show ?thesis by simp
qed

subsection \<open>The dependency gate and its hint\<close>

lemma dependency_gate_absent:
  assumes "image_exists b w (clang_tag v s) = (Inr False, tr0)"
  shows "build_devcontainer b w v s
           = (Inr 1, [Images_get (clang_tag v s), Err_base_missing (clang_tag v s),
                      Err_hint (''./build_containers.py clang --version '' @ str_int v)])
         \<and> built_tags (snd (build_devcontainer b w v s)) = []
         \<and> \<not> dry_run b"
  using assms
  by (auto simp: build_devcontainer_def image_exists_def hint_command_def Let_def
      split: if_splits option.splits exn.splits)

lemma dependency_gate_present:
  assumes "\<not> dry_run b" and "fst (image_exists b w (clang_tag v s)) = Inr True"
  shows "\<exists>rest. snd (build_devcontainer b w v s)
           = Images_get (clang_tag v s)
             # Engine_build (devcontainer_request b (devcontainer_tag v s)
                              [(''CLANG_BASE_IMAGE'', clang_tag v s)])
             # rest"
proof -
  have p: "images_get w (clang_tag v s) = None"
    using assms by (auto simp: image_exists_def split: option.splits exn.splits)
  obtain rest where "snd (except_clauses
            (try_build b w (devcontainer_request b (devcontainer_tag v s)
                              [(''CLANG_BASE_IMAGE'', clang_tag v s)])
               (''Building devcontainer with Clang '' @ str_int v) None))
       = Engine_build (devcontainer_request b (devcontainer_tag v s)
                              [(''CLANG_BASE_IMAGE'', clang_tag v s)]) # rest"
    using live_stage_trace by blast
  then show ?thesis
    using assms(1) p by (simp add: build_devcontainer_live_present)
qed

lemma hinted_command_builds:
  assumes "from_env w = None"
  shows "built_tags (snd (main root w (clang_args v))) = [clang_tag v []]"
proof -
  have c: "command (clang_args v) = Some ''clang''"
    and e: "a_dry_run (clang_args v) \<or> from_env w = None"
    using assms by (simp_all add: clang_args_def)
  have n: "''clang'' \<noteq> []"
    by simp
  have l: "\<not> dry_run (builder_of root (clang_args v))"
    by (simp add: builder_of_def clang_args_def)
  obtain r tr where rc: "run_command (builder_of root (clang_args v)) w (clang_args v) ''clang''
      = (r, tr)"
    by (cases "run_command (builder_of root (clang_args v)) w (clang_args v) ''clang''")
  have "tr = snd (build_clang (builder_of root (clang_args v)) w v None default_git_url 4 [])"
    using rc by (simp add: run_command_def clang_args_def)
  then have t: "built_tags tr = [clang_tag v []]"
    using l by (simp add: build_clang_built_tags)
  have app: "built_tags (xs @ ys) = built_tags xs @ built_tags ys" for xs ys
    by (induction xs rule: built_tags.induct) simp_all
  have d: "a_dry_run (clang_args v) = False"
    by (simp add: clang_args_def)
  show ?thesis
  proof (cases r)
    case (Inl x)
    then show ?thesis
      using rc t by (cases x) (simp_all add: main_started [OF c n e] d app)
  next
    case (Inr k)
    then show ?thesis
      using rc t by (simp add: main_started [OF c n e] d app)
  qed
qed

lemma hinted_command_builds_prerequisite_iff:
  assumes "from_env w = None"
  shows "clang_tag v s \<in> set (built_tags (snd (main root w (clang_args v)))) \<longleftrightarrow> s = []"
  by (simp add: hinted_command_builds [OF assms] clang_tag_def)

text \<open>
  Claim C1. The gate itself is as claimed (\<open>dependency_gate_absent\<close>,
  \<open>dependency_gate_present\<close>): an absent base image gives the result 1 with no build call,
  a present one leads to the build call. The remediation hint, though, names the command
  \<^verbatim>\<open>clang --version {v}\<close> without the tag suffix, and that command builds
  \<open>clang-ubuntu:\<close>\<^verbatim>\<open>{v}\<close> (\<open>hinted_command_builds\<close>), which is the missing image only when
  the suffix is empty. At version 21 and suffix \<open>-dbg\<close>: the missing image is
  \<open>clang-ubuntu:21-dbg\<close>, the hint reads \<^verbatim>\<open>./build_containers.py clang --version 21\<close>, and
  running that command asks the engine for \<open>clang-ubuntu:21\<close>.
\<close>

theorem hint_omits_tag_suffix:
  "build_devcontainer live_builder empty_store_world 21 ''-dbg''
     = (Inr 1, [Images_get ''clang-ubuntu:21-dbg'', Err_base_missing ''clang-ubuntu:21-dbg'',
                Err_hint ''./build_containers.py clang --version 21''])
   \<and> built_tags (snd (main ''/repo'' empty_store_world (clang_args 21)))
       = [''clang-ubuntu:21'']"
proof -
  have "built_tags (snd (main ''/repo'' empty_store_world (clang_args 21)))
       = [clang_tag 21 []]"
    by (rule hinted_command_builds) (simp add: empty_store_world_def)
  then show ?thesis
    by (simp add: build_devcontainer_def image_exists_def live_builder_def
        empty_store_world_def hint_command_def clang_tag_def Let_def str_int_21)
qed


subsection \<open>Faults at the stage boundary\<close>

lemma stream_loop_raising:
  "\<exists>e'. fst (stream_loop vb h cs (Some e)) = Inl e' \<and> (e' = e \<or> (\<exists>m. e' = BuildError m))"
  by (induction cs) (auto split: option.splits prod.splits)

lemma stage_outcome:
  "fst (except_clauses x) =
     (case fst x of Inl e \<Rightarrow> if is_exception e then Inr 1 else Inl e | Inr c \<Rightarrow> Inr c)"
  by (cases x rule: except_clauses.cases) simp_all

lemma try_build_stream_raises:
  assumes "api_build w req = Inr (cs, Some e)"
  shows "\<exists>e'. fst (try_build b w req d lf) = Inl e'
           \<and> (e' = e \<or> (\<exists>m. e' = BuildError m)
               \<or> (\<exists>p. \<not> dry_run b \<and> lf = Some p \<and> fs_open w p = Some e'))"
proof -
  have loop: "\<exists>e'. fst (stream_loop (verbose b) h cs (Some e)) = Inl e'
                 \<and> (e' = e \<or> (\<exists>m. e' = BuildError m))" for h
    by (rule stream_loop_raising)
  have sink: "\<exists>e'. fst (stream_build_output b w (cs, Some e) d lf) = Inl e'
           \<and> (e' = e \<or> (\<exists>m. e' = BuildError m)
               \<or> (\<exists>p. \<not> dry_run b \<and> lf = Some p \<and> fs_open w p = Some e'))"
  proof (cases "if dry_run b then None else lf")
    case None
    then show ?thesis
      using loop [of None] by (auto simp: stream_build_output_eq)
  next
    case (Some p)
    then have lp: "\<not> dry_run b" "lf = Some p"
      by (auto split: if_splits)
    show ?thesis
    proof (cases "fs_open w p")
      case None
      then show ?thesis
        using loop [of "Some p"] lp by (auto simp: stream_build_output_eq)
    next
      case (Some e')
      then show ?thesis
        using lp by (simp add: stream_build_output_eq)
    qed
  qed
  then obtain e' where 1: "fst (stream_build_output b w (cs, Some e) d lf) = Inl e'"
    and 2: "e' = e \<or> (\<exists>m. e' = BuildError m)
               \<or> (\<exists>p. \<not> dry_run b \<and> lf = Some p \<and> fs_open w p = Some e')"
    by blast
  from 1 have "fst (try_build b w req d lf) = Inl e'"
    using assms by (auto simp: try_build_def split: prod.splits sum.splits)
  with 2 show ?thesis by blast
qed

text \<open>
  What the \<^verbatim>\<open>try\<close> of a live stage achieves: nothing of class \<^verbatim>\<open>Exception\<close> comes out of
  it, and a fault of that class raised by the build call, by the opening of the log file
  or by the stream gives the result 1.
\<close>

lemma stage_catches_exceptions:
  "(\<forall>e. fst (except_clauses (try_build b w req d lf)) = Inl e \<longrightarrow> \<not> is_exception e)
   \<and> (\<forall>e. is_exception e \<and> api_build w req = Inl e \<longrightarrow>
         fst (except_clauses (try_build b w req d lf)) = Inr 1)
   \<and> (\<forall>st p e. is_exception e \<and> api_build w req = Inr st \<and> \<not> dry_run b \<and> lf = Some p
                \<and> fs_open w p = Some e \<longrightarrow>
         fst (except_clauses (try_build b w req d lf)) = Inr 1)
   \<and> (\<forall>cs e. is_exception e \<and> api_build w req = Inr (cs, Some e)
              \<and> (dry_run b \<or> lf = None \<or> (\<exists>p. lf = Some p \<and> fs_open w p = None)) \<longrightarrow>
         fst (except_clauses (try_build b w req d lf)) = Inr 1)"
proof (intro conjI allI impI)
  fix e assume "fst (except_clauses (try_build b w req d lf)) = Inl e"
  then show "\<not> is_exception e"
    by (auto simp: stage_outcome split: sum.splits if_splits)
next
  fix e assume "is_exception e \<and> api_build w req = Inl e"
  then show "fst (except_clauses (try_build b w req d lf)) = Inr 1"
    by (simp add: stage_outcome try_build_def)
next
  fix st p e
  assume "is_exception e \<and> api_build w req = Inr st \<and> \<not> dry_run b \<and> lf = Some p
            \<and> fs_open w p = Some e"
  then show "fst (except_clauses (try_build b w req d lf)) = Inr 1"
    by (simp add: stage_outcome try_build_def stream_build_output_eq)
next
  fix cs e
  assume a: "is_exception e \<and> api_build w req = Inr (cs, Some e)
              \<and> (dry_run b \<or> lf = None \<or> (\<exists>p. lf = Some p \<and> fs_open w p = None))"
  then have ab: "api_build w req = Inr (cs, Some e)"
    by simp
  obtain e' where 1: "fst (try_build b w req d lf) = Inl e'"
    and 2: "e' = e \<or> (\<exists>m. e' = BuildError m)
               \<or> (\<exists>p. \<not> dry_run b \<and> lf = Some p \<and> fs_open w p = Some e')"
    using try_build_stream_raises [OF ab, of b d lf] by blast
  from a 2 have "is_exception e'"
    by auto
  with 1 show "fst (except_clauses (try_build b w req d lf)) = Inr 1"
    by (simp add: stage_outcome)
qed

lemma build_clang_catches_exceptions:
  assumes "\<not> dry_run b" and "fst (build_clang b w v g u j s) = Inl e"
  shows "\<not> is_exception e"
proof -
  from assms(2) have "fst (except_clauses
       (try_build b w (clang_request b (clang_tag v s)
                         (clang_build_args (git_ref_or_default v g) u j))
          (''Building Clang '' @ str_int v @ '' from '' @ git_ref_or_default v g)
          (if \<not> verbose b then Some (clang_log_file b v) else None))) = Inl e"
    by (simp only: build_clang_live [OF assms(1)])
  then show ?thesis
    by (auto simp: stage_outcome split: sum.splits if_splits)
qed

text \<open>
  A live \<^verbatim>\<open>build_devcontainer\<close> lets something of class \<^verbatim>\<open>Exception\<close> out in one case only:
  the query of the image store raised it.
\<close>

lemma build_devcontainer_escape:
  assumes "\<not> dry_run b" and "fst (build_devcontainer b w v s) = Inl e" and "is_exception e"
  shows "images_get w (clang_tag v s) = Some e"
proof (cases rule: images_get_cases [of w "clang_tag v s"])
  case present
  from assms(2) have "fst (except_clauses
            (try_build b w (devcontainer_request b (devcontainer_tag v s)
                              [(''CLANG_BASE_IMAGE'', clang_tag v s)])
               (''Building devcontainer with Clang '' @ str_int v) None)) = Inl e"
    by (simp only: build_devcontainer_live_present [OF assms(1) present] fst_conv)
  then have "\<not> is_exception e"
    by (auto simp: stage_outcome split: sum.splits if_splits)
  with assms(3) show ?thesis by simp
next
  case (absent m)
  with assms show ?thesis by (simp add: build_devcontainer_live_absent)
next
  case (fault e')
  with assms show ?thesis by (simp add: build_devcontainer_live_fault)
qed

text \<open>
  Claim C3. The claim holds of the faults of the build call, of the log file and of the
  stream, in both stages (\<open>stage_catches_exceptions\<close>, \<open>build_clang_catches_exceptions\<close>).
  It fails for the prerequisite check: \<^verbatim>\<open>_image_exists\<close> catches \<open>ImageNotFound\<close> only and
  is called at line 192, before the \<^verbatim>\<open>try\<close> of line 208, so any other fault of the image
  store comes out of \<^verbatim>\<open>build_devcontainer\<close>, and out of \<^verbatim>\<open>main\<close>, which catches the
  interrupt only. With an engine whose store answers \<open>APIError\<close>: the stage function and
  \<^verbatim>\<open>main\<close> end by that exception, having printed nothing, whereas the same exception raised
  by the build call of the same function is caught (line 230) and gives 1.
\<close>

theorem oracle_fault_escapes_stage:
  "build_devcontainer live_builder oracle_down_world 21 []
     = (Inl (APIError ''down''), [Images_get ''clang-ubuntu:21''])
   \<and> main ''/repo'' oracle_down_world (devcontainer_args 21)
     = (Inl (APIError ''down''), [From_env, Images_get ''clang-ubuntu:21''])
   \<and> fst (build_devcontainer live_builder (failing_build_world (APIError ''down'')) 21 [])
     = Inr 1"
  by (simp add: main_def run_command_def devcontainer_args_def builder_of_def
      build_devcontainer_def image_exists_def try_build_def live_builder_def
      oracle_down_world_def failing_build_world_def clang_tag_def str_int_21 Let_def)

end
